theory Spec2Isabelle
  imports Complex_Main "HOL-Library.Sublist"
begin

section \<open>Python strings\<close>

text \<open>
  A Python \<^verbatim>\<open>str\<close> is modelled as a \<^typ>\<open>string\<close>: a list of characters standing for the
  code points below 256. On these code points \<^verbatim>\<open>str.isspace\<close>, \<^verbatim>\<open>str.lower\<close> and the
  character classes \<^verbatim>\<open>\d\<close> and \<^verbatim>\<open>[0-9a-f]\<close> of the module \<^verbatim>\<open>re\<close> are the tables below.
\<close>

datatype error = ValueError | ZeroDivisionError | Exception string

definition py_isspace :: "char \<Rightarrow> bool" where
  "py_isspace c \<longleftrightarrow> c \<in> {CHR 0x09, CHR 0x0A, CHR 0x0B, CHR 0x0C, CHR 0x0D,
     CHR 0x1C, CHR 0x1D, CHR 0x1E, CHR 0x1F, CHR 0x20, CHR 0x85, CHR 0xA0}"

definition py_strip :: "string \<Rightarrow> string" where
  "py_strip s = rev (dropWhile py_isspace (rev (dropWhile py_isspace s)))"

definition py_lower_char :: "char \<Rightarrow> char" where
  "py_lower_char c =
     (let n = (of_char c :: nat)
      in if (65 \<le> n \<and> n \<le> 90) \<or> (192 \<le> n \<and> n \<le> 222 \<and> n \<noteq> 215)
         then char_of (n + 32) else c)"

definition py_lower :: "string \<Rightarrow> string" where
  "py_lower s = map py_lower_char s"

text \<open>\<^verbatim>\<open>s.split(d)\<close> for a one-character separator: always at least one piece.\<close>

fun split_on :: "char \<Rightarrow> string \<Rightarrow> string list" where
  "split_on d [] = [[]]"
| "split_on d (c # cs) =
     (if c = d then [] # split_on d cs
      else (case split_on d cs of [] \<Rightarrow> [[c]] | p # ps \<Rightarrow> (c # p) # ps))"

text \<open>\<^verbatim>\<open>sep.join(xs)\<close>.\<close>

fun join :: "string \<Rightarrow> string list \<Rightarrow> string" where
  "join sep [] = []"
| "join sep [x] = x"
| "join sep (x # y # ys) = x @ sep @ join sep (y # ys)"

text \<open>The text before the first \<open>d\<close>, and the text after it (empty when there is none).\<close>

definition before :: "char \<Rightarrow> string \<Rightarrow> string" where
  "before d s = takeWhile (\<lambda>c. c \<noteq> d) s"

definition after :: "char \<Rightarrow> string \<Rightarrow> string" where
  "after d s = drop 1 (dropWhile (\<lambda>c. c \<noteq> d) s)"

text \<open>\<^verbatim>\<open>x in s\<close> on strings: \<open>x\<close> occurs in \<open>s\<close> as a contiguous piece.\<close>

fun py_in :: "string \<Rightarrow> string \<Rightarrow> bool" where
  "py_in x [] \<longleftrightarrow> x = []"
| "py_in x (c # cs) \<longleftrightarrow> prefix x (c # cs) \<or> py_in x cs"

section \<open>The standard library: \<^verbatim>\<open>urllib.parse.urlparse\<close>\<close>

text \<open>
  \<^verbatim>\<open>urlparse\<close> as CPython 3.11 defines it (\<^verbatim>\<open>urlsplit\<close>, \<^verbatim>\<open>_splitnetloc\<close>, \<^verbatim>\<open>_splitparams\<close>).
  It raises \<^verbatim>\<open>ValueError\<close> on a network location with an unbalanced bracket, and on a
  bracketed host that \<^verbatim>\<open>_check_bracketed_host\<close> rejects. That last check (the module
  \<^verbatim>\<open>ipaddress\<close>) is the parameter \<open>ipok\<close>: \<open>ipok h\<close> holds when the check accepts \<open>h\<close>.
  A Python before 3.11.4 has no such check: \<open>ipok = (\<lambda>_. True)\<close>.
  \<^verbatim>\<open>_checknetloc\<close> never raises on code points below 256.
\<close>

record parse_result =
  scheme :: string
  netloc :: string
  path :: string
  params :: string
  query :: string
  fragment :: string

definition scheme_chars :: string where
  "scheme_chars = ''abcdefghijklmnopqrstuvwxyzABCDEFGHIJKLMNOPQRSTUVWXYZ0123456789+-.''"

definition ascii_alpha :: string where
  "ascii_alpha = ''abcdefghijklmnopqrstuvwxyzABCDEFGHIJKLMNOPQRSTUVWXYZ''"

definition uses_params :: "string list" where
  "uses_params = ['''', ''ftp'', ''hdl'', ''prospero'', ''http'', ''imap'',
     ''https'', ''shttp'', ''rtsp'', ''rtsps'', ''rtspu'', ''sip'',
     ''sips'', ''mms'', ''sftp'', ''tel'']"

text \<open>
  The scheme: \<^verbatim>\<open>i = url.find(':')\<close>; when \<^verbatim>\<open>i > 0\<close>, the first character is an ASCII
  letter and every character before the colon is a scheme character, the scheme is that
  text in lower case and the URL goes on after the colon.
\<close>

definition split_scheme :: "string \<Rightarrow> string \<times> string" where
  "split_scheme url =
     (if CHR '':'' \<in> set url \<and> before CHR '':'' url \<noteq> [] \<and> hd url \<in> set ascii_alpha
         \<and> (\<forall>c \<in> set (before CHR '':'' url). c \<in> set scheme_chars)
      then (py_lower (before CHR '':'' url), after CHR '':'' url)
      else ([], url))"

definition netloc_delim :: "char \<Rightarrow> bool" where
  "netloc_delim c \<longleftrightarrow> c \<in> {CHR ''/'', CHR ''?'', CHR ''#''}"

definition splitnetloc :: "string \<Rightarrow> string \<times> string" where
  "splitnetloc url =
     (takeWhile (\<lambda>c. \<not> netloc_delim c) (drop 2 url),
      dropWhile (\<lambda>c. \<not> netloc_delim c) (drop 2 url))"

definition netloc_ok :: "(string \<Rightarrow> bool) \<Rightarrow> string \<Rightarrow> bool" where
  "netloc_ok ipok nl \<longleftrightarrow>
     (if CHR ''['' \<in> set nl \<and> CHR '']'' \<in> set nl
      then ipok (before CHR '']'' (after CHR ''['' nl))
      else CHR ''['' \<notin> set nl \<and> CHR '']'' \<notin> set nl)"

text \<open>
  \<^verbatim>\<open>urlsplit(url, scheme)\<close>: \<open>scheme0\<close> is the scheme given to a URL that has none. A scheme
  found in the URL is never empty.
\<close>

definition c0_or_space :: "char \<Rightarrow> bool" where
  "c0_or_space c \<longleftrightarrow> (of_char c :: nat) \<le> 32"

definition unsafe_removed :: "string \<Rightarrow> string" where
  "unsafe_removed s = filter (\<lambda>c. c \<notin> {CHR 0x09, CHR 0x0D, CHR 0x0A}) s"

definition urlsplit :: "(string \<Rightarrow> bool) \<Rightarrow> string \<Rightarrow> string \<Rightarrow> error + parse_result" where
  "urlsplit ipok scheme0 url0 =
     (let url2 = unsafe_removed (dropWhile c0_or_space url0);
          scheme1 = unsafe_removed
                      (rev (dropWhile c0_or_space (rev (dropWhile c0_or_space scheme0))));
          (sch0, url3) = split_scheme url2;
          sch = (if sch0 \<noteq> [] then sch0 else scheme1);
          (nl, url4) = (if take 2 url3 = ''//'' then splitnetloc url3 else ([], url3))
      in if \<not> netloc_ok ipok nl then Inl ValueError
         else
           let frag = after CHR ''#'' url4;
               url5 = before CHR ''#'' url4;
               qry = after CHR ''?'' url5;
               url6 = before CHR ''?'' url5
           in Inr \<lparr>scheme = sch, netloc = nl, path = url6, params = [],
                    query = qry, fragment = frag\<rparr>)"

text \<open>
  \<^verbatim>\<open>_splitparams\<close>: the parameters start at the first semicolon of the last path segment
  (\<^verbatim>\<open>url.find(';', url.rfind('/'))\<close>).
\<close>

definition splitparams :: "string \<Rightarrow> string \<times> string" where
  "splitparams url =
     (if CHR ''/'' \<in> set url
      then
        (let k = length url - 1 - length (takeWhile (\<lambda>c. c \<noteq> CHR ''/'') (rev url));
             lastseg = drop k url
         in if CHR '';'' \<in> set lastseg
            then (take k url @ before CHR '';'' lastseg, after CHR '';'' lastseg)
            else (url, []))
      else (before CHR '';'' url, after CHR '';'' url))"

definition urlparse_scheme :: "(string \<Rightarrow> bool) \<Rightarrow> string \<Rightarrow> string \<Rightarrow> error + parse_result" where
  "urlparse_scheme ipok scheme0 url =
     (case urlsplit ipok scheme0 url of
        Inl e \<Rightarrow> Inl e
      | Inr r \<Rightarrow>
          if scheme r \<in> set uses_params \<and> CHR '';'' \<in> set (path r)
          then Inr (r\<lparr>path := fst (splitparams (path r)), params := snd (splitparams (path r))\<rparr>)
          else Inr r)"

text \<open>\<^verbatim>\<open>urlparse(url)\<close>: the default scheme is empty.\<close>

definition urlparse :: "(string \<Rightarrow> bool) \<Rightarrow> string \<Rightarrow> error + parse_result" where
  "urlparse ipok url = urlparse_scheme ipok [] url"

section \<open>Host keys\<close>

text \<open>
  \<^verbatim>\<open>_hostkey\<close>: the network location (or the whole text when there is none) in lower
  case, without user information and without a default port.
\<close>

definition hostkey :: "(string \<Rightarrow> bool) \<Rightarrow> string \<Rightarrow> error + string" where
  "hostkey ipok host_or_url =
     (case urlparse ipok host_or_url of
        Inl e \<Rightarrow> Inl e
      | Inr r \<Rightarrow>
          let nl0 = (if netloc r \<noteq> [] then netloc r else host_or_url);
              nl1 = py_lower nl0;
              nl2 = (if CHR ''@'' \<in> set nl1 then after CHR ''@'' nl1 else nl1);
              h = before CHR '':'' nl2;
              p = after CHR '':'' nl2
          in if p \<in> {''80'', ''443''} then Inr h
             else Inr (if nl2 \<noteq> [] then nl2 else h))"

section \<open>Path segments\<close>

text \<open>
  The patterns \<^verbatim>\<open>_NUM\<close>, \<^verbatim>\<open>_UUID\<close>, \<^verbatim>\<open>_HEX\<close> and \<^verbatim>\<open>_DATE\<close>, each anchored at both ends.
  They are applied to a stripped segment, which cannot end in a newline, so \<^verbatim>\<open>$\<close> is
  the end of the text. A piece of a pattern is a function that consumes a prefix of the
  text and returns the rest, or fails.
\<close>

definition is_digit :: "char \<Rightarrow> bool" where
  "is_digit c \<longleftrightarrow> c \<in> set ''0123456789''"

definition is_hex :: "char \<Rightarrow> bool" where
  "is_hex c \<longleftrightarrow> c \<in> set ''0123456789abcdefABCDEF''"

definition exactly :: "nat \<Rightarrow> (char \<Rightarrow> bool) \<Rightarrow> string \<Rightarrow> string option" where
  "exactly n P s = (if n \<le> length s \<and> list_all P (take n s) then Some (drop n s) else None)"

definition lit :: "char \<Rightarrow> string \<Rightarrow> string option" where
  "lit d s = (case s of [] \<Rightarrow> None | c # cs \<Rightarrow> if c = d then Some cs else None)"

definition opt_sep :: "string \<Rightarrow> string option" where
  "opt_sep s = (case s of [] \<Rightarrow> Some [] | c # cs \<Rightarrow> if c \<in> {CHR ''-'', CHR ''/''} then Some cs else Some s)"

definition NUM :: "string \<Rightarrow> bool" where
  "NUM s \<longleftrightarrow> s \<noteq> [] \<and> list_all is_digit s"

definition UUID :: "string \<Rightarrow> bool" where
  "UUID s \<longleftrightarrow>
     Option.bind (Option.bind (Option.bind (Option.bind (Option.bind (Option.bind
       (Option.bind (Option.bind (exactly 8 is_hex s) (lit CHR ''-''))
          (exactly 4 is_hex)) (lit CHR ''-'')) (exactly 4 is_hex)) (lit CHR ''-''))
          (exactly 4 is_hex)) (lit CHR ''-'')) (exactly 12 is_hex) = Some []"

definition HEX :: "string \<Rightarrow> bool" where
  "HEX s \<longleftrightarrow> 8 \<le> length s \<and> list_all is_hex s"

definition DATE :: "string \<Rightarrow> bool" where
  "DATE s \<longleftrightarrow>
     (case Option.bind (Option.bind (exactly 4 is_digit s) opt_sep) (exactly 2 is_digit) of
        None \<Rightarrow> False
      | Some rest \<Rightarrow>
          rest = [] \<or> Option.bind (opt_sep rest) (exactly 2 is_digit) = Some [])"

text \<open>
  \<^verbatim>\<open>re.sub(r'\.(?:jsp|do|php|aspx|html?|cgi|action)$', '', s, flags=re.I)\<close>: an extension
  holds no dot and reaches the end of the text, so at most one piece of the text matches.
\<close>

definition extensions :: "string list" where
  "extensions = [''.jsp'', ''.do'', ''.php'', ''.aspx'', ''.html'', ''.htm'', ''.cgi'', ''.action'']"

definition ascii_lower_char :: "char \<Rightarrow> char" where
  "ascii_lower_char c =
     (let n = (of_char c :: nat) in if 65 \<le> n \<and> n \<le> 90 then char_of (n + 32) else c)"

definition strip_extension :: "string \<Rightarrow> string" where
  "strip_extension s =
     (case find (\<lambda>e. suffix e (map ascii_lower_char s)) extensions of
        None \<Rightarrow> s
      | Some e \<Rightarrow> take (length s - length e) s)"

definition norm_seg :: "string \<Rightarrow> string" where
  "norm_seg seg =
     (let s = py_strip seg
      in if s = [] then []
         else if NUM s \<or> UUID s \<or> HEX s \<or> DATE s then ''{id}''
         else strip_extension s)"

definition path_segs :: "(string \<Rightarrow> bool) \<Rightarrow> string \<Rightarrow> error + string list" where
  "path_segs ipok u =
     (case urlparse ipok u of
        Inl e \<Rightarrow> Inl e
      | Inr p \<Rightarrow>
          Inr (map norm_seg
                 (filter (\<lambda>x. norm_seg x \<noteq> [])
                    (split_on CHR ''/'' (if path p \<noteq> [] then path p else ''/'')))))"

section \<open>Python floats\<close>

text \<open>
  A Python \<^verbatim>\<open>float\<close> is an IEEE 754 double. A finite double is modelled as the real number
  it denotes, and an operation on doubles gives the exact result rounded to the nearest
  double, with a tie going to the even significand: \<open>rnd\<close>. Around \<open>x\<close> the doubles are the
  multiples of \<open>2\<close> to the power \<open>\<lfloor>log\<^sub>2 \<bar>x\<bar>\<rfloor> - 52\<close>, and of \<open>2\<close> to the power \<open>-1074\<close> where
  that is less (the subnormal doubles). A double overflows from \<open>2\<close> to the power \<open>1024\<close>
  on; the values of this module are quotients and weighted sums of lengths, which are
  below \<open>2\<close> to the power \<open>63\<close>, so that no operation overflows and no length is rounded
  when it becomes a \<^verbatim>\<open>float\<close>.
\<close>

text \<open>\<^verbatim>\<open>n.bit_length()\<close> for a positive \<open>n\<close>.\<close>

function bit_length :: "int \<Rightarrow> nat" where
  "bit_length n = (if n \<le> 0 then 0 else Suc (bit_length (n div 2)))"
  by pat_completeness auto
termination
  by (relation "measure nat") auto

declare bit_length.simps [simp del]

text \<open>\<open>\<lfloor>log\<^sub>2 x\<rfloor>\<close> for a positive \<open>x\<close>, and \<open>2\<close> to an integer power.\<close>

definition ilog2 :: "real \<Rightarrow> int" where
  "ilog2 x = (if 1 \<le> x then int (bit_length \<lfloor>x\<rfloor>) - 1
              else - int (bit_length (\<lceil>1 / x\<rceil> - 1)))"

definition pow2 :: "int \<Rightarrow> real" where
  "pow2 e = (if 0 \<le> e then 2 ^ nat e else 1 / 2 ^ nat (- e))"

definition round_even :: "real \<Rightarrow> int" where
  "round_even t =
     (let f = \<lfloor>t\<rfloor>; d = t - of_int f
      in if d < 1 / 2 then f else if 1 / 2 < d then f + 1 else if even f then f else f + 1)"

definition rnd :: "real \<Rightarrow> real" where
  "rnd x =
     (if x = 0 then 0
      else let e = max (ilog2 \<bar>x\<bar> - 52) (- 1074)
           in of_int (round_even (x / pow2 e)) * pow2 e)"

text \<open>
  The operations \<^verbatim>\<open>+\<close>, \<^verbatim>\<open>*\<close> and \<^verbatim>\<open>/\<close> on floats, \<^verbatim>\<open>float(n)\<close>, and \<^verbatim>\<open>/\<close> on two integers,
  which rounds the exact quotient once.
\<close>

definition fadd :: "real \<Rightarrow> real \<Rightarrow> real" where
  "fadd x y = rnd (x + y)"

definition fmul :: "real \<Rightarrow> real \<Rightarrow> real" where
  "fmul x y = rnd (x * y)"

definition fdiv :: "real \<Rightarrow> real \<Rightarrow> real" where
  "fdiv x y = rnd (x / y)"

definition float_of_nat :: "nat \<Rightarrow> real" where
  "float_of_nat n = rnd (real n)"

definition truediv :: "nat \<Rightarrow> nat \<Rightarrow> real" where
  "truediv a b = rnd (real a / real b)"

lemma bit_length_le: "n < 2 ^ m \<Longrightarrow> bit_length n \<le> m"
proof (induction n arbitrary: m rule: bit_length.induct)
  case (1 n)
  show ?case
  proof (cases "n \<le> 0")
    case True
    then show ?thesis by (simp add: bit_length.simps)
  next
    case False
    with "1.prems" obtain m' where m: "m = Suc m'"
      by (cases m) auto
    with "1.prems" have "n div 2 < 2 ^ m'"
      by auto
    with "1.IH" [OF False] have "bit_length (n div 2) \<le> m'"
      by simp
    with False m show ?thesis
      by (subst bit_length.simps) simp
  qed
qed

lemma pow2_pos: "0 < pow2 e"
  by (simp add: pow2_def)

lemma round_even_nonneg: "0 \<le> t \<Longrightarrow> 0 \<le> round_even t"
  by (auto simp: round_even_def Let_def)

lemma round_even_nonpos: "t \<le> 0 \<Longrightarrow> round_even t \<le> 0"
  unfolding round_even_def Let_def
  by (auto; linarith)

lemma round_even_le: "t \<le> of_int j \<Longrightarrow> round_even t \<le> j"
  unfolding round_even_def Let_def
  by (auto simp: floor_le_iff; linarith)

lemma round_even_of_int: "round_even (of_int j) = j"
  by (simp add: round_even_def)

lemma rnd_nonneg: "0 \<le> x \<Longrightarrow> 0 \<le> rnd x"
  by (auto simp: rnd_def Let_def
      intro!: mult_nonneg_nonneg round_even_nonneg divide_nonneg_pos pow2_pos less_imp_le [OF pow2_pos])

lemma rnd_nonpos: "x \<le> 0 \<Longrightarrow> rnd x \<le> 0"
  by (auto simp: rnd_def Let_def
      intro!: mult_nonpos_nonneg round_even_nonpos divide_nonpos_pos pow2_pos less_imp_le [OF pow2_pos])

lemma ilog2_le:
  assumes "x < 2 ^ m" and "1 \<le> m"
  shows "ilog2 x \<le> int m - 1"
proof (cases "1 \<le> x")
  case True
  have "\<lfloor>x\<rfloor> < 2 ^ m"
    using assms(1) by (simp add: floor_less_iff)
  then have "bit_length \<lfloor>x\<rfloor> \<le> m"
    by (rule bit_length_le)
  with True show ?thesis
    by (simp add: ilog2_def)
next
  case False
  then have "ilog2 x \<le> 0"
    by (simp add: ilog2_def)
  with assms(2) show ?thesis
    by simp
qed

text \<open>Rounding does not pass an integer below \<open>2\<close> to the power \<open>53\<close>, and keeps such an integer.\<close>

lemma rnd_le_int:
  assumes "x \<le> of_int k" and "0 \<le> k" and "k < 2 ^ 53"
  shows "rnd x \<le> of_int k"
proof (cases "x \<le> 0")
  case True
  then have "rnd x \<le> 0"
    by (rule rnd_nonpos)
  with assms(2) show ?thesis
    by simp
next
  case False
  then have pos: "0 < x" by simp
  define e where "e = max (ilog2 \<bar>x\<bar> - 52) (- 1074)"
  define n where "n = nat (- e)"
  have "x < 2 ^ 53"
  proof -
    have "(of_int k :: real) < of_int (2 ^ 53)"
      using assms(3) by (simp only: of_int_less_iff)
    with assms(1) show ?thesis by simp
  qed
  then have "ilog2 \<bar>x\<bar> \<le> int 53 - 1"
    using pos by (intro ilog2_le) simp_all
  then have e: "e \<le> 0"
    by (simp add: e_def)
  then have p: "pow2 e = 1 / 2 ^ n"
    by (cases "e = 0") (simp_all add: pow2_def n_def)
  have "x / pow2 e = x * 2 ^ n"
    by (simp add: p)
  also have "\<dots> \<le> of_int k * 2 ^ n"
    using assms(1) by simp
  also have "\<dots> = of_int (k * 2 ^ n)"
    by simp
  finally have "round_even (x / pow2 e) \<le> k * 2 ^ n"
    by (rule round_even_le)
  then have "of_int (round_even (x / pow2 e)) \<le> (of_int (k * 2 ^ n) :: real)"
    by (simp only: of_int_le_iff)
  then have "of_int (round_even (x / pow2 e)) * pow2 e \<le> of_int k"
    by (simp add: p field_simps)
  with pos show ?thesis
    by (simp add: rnd_def Let_def e_def)
qed

lemma rnd_of_int:
  assumes "\<bar>k\<bar> < 2 ^ 53"
  shows "rnd (of_int k) = of_int k"
proof (cases "k = 0")
  case True
  then show ?thesis by (simp add: rnd_def)
next
  case False
  define e where "e = max (ilog2 \<bar>of_int k\<bar> - 52) (- 1074)"
  define n where "n = nat (- e)"
  have "\<bar>of_int k :: real\<bar> < 2 ^ 53"
  proof -
    have "(of_int \<bar>k\<bar> :: real) < of_int (2 ^ 53)"
      using assms by (simp only: of_int_less_iff)
    then show ?thesis by simp
  qed
  then have "ilog2 \<bar>of_int k\<bar> \<le> int 53 - 1"
    by (intro ilog2_le) simp_all
  then have e: "e \<le> 0"
    by (simp add: e_def)
  then have p: "pow2 e = 1 / 2 ^ n"
    by (cases "e = 0") (simp_all add: pow2_def n_def)
  have "of_int k / pow2 e = (of_int (k * 2 ^ n) :: real)"
    by (simp add: p)
  then have "round_even (of_int k / pow2 e) = k * 2 ^ n"
    by (simp only: round_even_of_int)
  then have "of_int (round_even (of_int k / pow2 e)) * pow2 e = (of_int k :: real)"
    by (simp add: p)
  with False show ?thesis
    by (simp add: rnd_def Let_def e_def)
qed

lemma fadd_100_5: "fadd 100 5 = 105"
  using rnd_of_int [of 105] by (simp add: fadd_def)

section \<open>The standard library: \<^verbatim>\<open>difflib.SequenceMatcher(None, a, b).ratio()\<close>\<close>

text \<open>
  With \<^verbatim>\<open>isjunk = None\<close> no element is junk. With \<^verbatim>\<open>autojunk\<close>, when \<open>b\<close> has at least
  200 elements, an element that occurs more than \<^verbatim>\<open>len(b) // 100 + 1\<close> times is popular
  and its positions are taken out of \<^verbatim>\<open>b2j\<close>.
\<close>

definition popular :: "string \<Rightarrow> char \<Rightarrow> bool" where
  "popular b c \<longleftrightarrow> 200 \<le> length b \<and> length b div 100 + 1 < count_list b c"

definition b2j :: "string \<Rightarrow> char \<Rightarrow> nat list" where
  "b2j b c = (if popular b c then [] else filter (\<lambda>j. b ! j = c) [0..<length b])"

type_synonym match = "nat \<times> nat \<times> nat"

text \<open>
  The inner loop of \<^verbatim>\<open>find_longest_match\<close> over the positions \<open>j\<close> of \<^verbatim>\<open>a[i]\<close> in \<open>b\<close>:
  \<^verbatim>\<open>continue\<close> below \<open>blo\<close>, \<^verbatim>\<open>break\<close> from \<open>bhi\<close> on. The dictionary \<^verbatim>\<open>j2len\<close> has no
  key \<open>-1\<close>, so \<^verbatim>\<open>j2len.get(j-1, 0)\<close>, here \<open>j2lenget j2len j\<close>, is 0 at \<open>j = 0\<close>.
\<close>

definition j2lenget :: "(nat \<rightharpoonup> nat) \<Rightarrow> nat \<Rightarrow> nat" where
  "j2lenget j2len j = (if j = 0 then 0 else case j2len (j - 1) of None \<Rightarrow> 0 | Some v \<Rightarrow> v)"

fun scan_row :: "nat \<Rightarrow> nat \<Rightarrow> nat \<Rightarrow> (nat \<rightharpoonup> nat) \<Rightarrow> nat list
    \<Rightarrow> (nat \<rightharpoonup> nat) \<times> match \<Rightarrow> (nat \<rightharpoonup> nat) \<times> match" where
  "scan_row i blo bhi j2len [] st = st"
| "scan_row i blo bhi j2len (j # js) (newj2len, (besti, bestj, bestsize)) =
     (if j < blo then scan_row i blo bhi j2len js (newj2len, (besti, bestj, bestsize))
      else if bhi \<le> j then (newj2len, (besti, bestj, bestsize))
      else
        let k = j2lenget j2len j + 1
        in scan_row i blo bhi j2len js
             (newj2len(j \<mapsto> k),
              if bestsize < k then (i + 1 - k, j + 1 - k, k) else (besti, bestj, bestsize)))"

function scan_rows :: "string \<Rightarrow> string \<Rightarrow> nat \<Rightarrow> nat \<Rightarrow> nat \<Rightarrow> nat
    \<Rightarrow> (nat \<rightharpoonup> nat) \<times> match \<Rightarrow> match" where
  "scan_rows a b blo bhi i ahi (j2len, best) =
     (if i < ahi
      then scan_rows a b blo bhi (i + 1) ahi
             (scan_row i blo bhi j2len (b2j b (a ! i)) (Map.empty, best))
      else best)"
  by pat_completeness auto
termination
  by (relation "measure (\<lambda>(a, b, blo, bhi, i, ahi, st). ahi - i)") auto

declare scan_rows.simps [simp del]

function extend_left :: "string \<Rightarrow> string \<Rightarrow> nat \<Rightarrow> nat \<Rightarrow> match \<Rightarrow> match" where
  "extend_left a b alo blo (besti, bestj, bestsize) =
     (if alo < besti \<and> blo < bestj \<and> a ! (besti - 1) = b ! (bestj - 1)
      then extend_left a b alo blo (besti - 1, bestj - 1, bestsize + 1)
      else (besti, bestj, bestsize))"
  by pat_completeness auto
termination
  by (relation "measure (\<lambda>(a, b, alo, blo, besti, bestj, bestsize). besti)") auto

declare extend_left.simps [simp del]

function extend_right :: "string \<Rightarrow> string \<Rightarrow> nat \<Rightarrow> nat \<Rightarrow> match \<Rightarrow> match" where
  "extend_right a b ahi bhi (besti, bestj, bestsize) =
     (if besti + bestsize < ahi \<and> bestj + bestsize < bhi
         \<and> a ! (besti + bestsize) = b ! (bestj + bestsize)
      then extend_right a b ahi bhi (besti, bestj, bestsize + 1)
      else (besti, bestj, bestsize))"
  by pat_completeness auto
termination
  by (relation "measure (\<lambda>(a, b, ahi, bhi, besti, bestj, bestsize). ahi - (besti + bestsize))") auto

declare extend_right.simps [simp del]

text \<open>
  \<^verbatim>\<open>find_longest_match\<close>. Its last two loops extend the match over junk, and there is
  no junk.
\<close>

definition find_longest_match :: "string \<Rightarrow> string \<Rightarrow> nat \<Rightarrow> nat \<Rightarrow> nat \<Rightarrow> nat \<Rightarrow> match" where
  "find_longest_match a b alo ahi blo bhi =
     extend_right a b ahi bhi
       (extend_left a b alo blo
          (scan_rows a b blo bhi alo ahi (Map.empty, (alo, blo, 0))))"

lemma scan_row_bounds:
  assumes "\<forall>j v. j2len j = Some v \<longrightarrow> v + alo \<le> i"
    and "alo \<le> i"
    and "\<forall>j v. new j = Some v \<longrightarrow> v + alo \<le> i + 1"
    and "alo \<le> fst best" and "fst best + snd (snd best) \<le> i + 1"
    and "scan_row i blo bhi j2len js (new, best) = (new', best')"
  shows "(\<forall>j v. new' j = Some v \<longrightarrow> v + alo \<le> i + 1)
       \<and> alo \<le> fst best' \<and> fst best' + snd (snd best') \<le> i + 1"
  using assms
proof (induction js arbitrary: new best)
  case Nil
  then show ?case by simp
next
  case (Cons j js)
  obtain bi bj bs where best: "best = (bi, bj, bs)"
    by (cases best)
  define k where "k = j2lenget j2len j + 1"
  have k: "k + alo \<le> i + 1" "0 < k"
    using Cons.prems(1,2) by (auto simp: k_def j2lenget_def split: option.splits)
  show ?case
  proof (cases "j < blo")
    case True
    then have run0: "scan_row i blo bhi j2len js (new, best) = (new', best')"
      using Cons.prems(6) best by simp
    show ?thesis
      by (rule Cons.IH [OF Cons.prems(1) Cons.prems(2) Cons.prems(3) Cons.prems(4) Cons.prems(5) run0])
  next
    case False
    note nlt = this
    show ?thesis
    proof (cases "bhi \<le> j")
      case True
      with nlt Cons.prems best show ?thesis by auto
    next
      case False
      let ?best = "if bs < k then (i + 1 - k, j + 1 - k, k) else (bi, bj, bs)"
      have run: "scan_row i blo bhi j2len js (new(j \<mapsto> k), ?best) = (new', best')"
        using Cons.prems(6) nlt False best by (simp add: k_def Let_def split del: if_split cong: if_cong)
      have a: "\<forall>j' v. (new(j \<mapsto> k)) j' = Some v \<longrightarrow> v + alo \<le> i + 1"
        using Cons.prems(3) k by auto
      have b: "alo \<le> fst ?best"
        using Cons.prems(4) k best by auto
      have c: "fst ?best + snd (snd ?best) \<le> i + 1"
        using Cons.prems(5) k best by auto
      show ?thesis
        by (rule Cons.IH [OF Cons.prems(1) Cons.prems(2) a b c run])
    qed
  qed
qed

lemma scan_rows_bounds:
  assumes "\<forall>j v. j2len j = Some v \<longrightarrow> v + alo \<le> i"
    and "alo \<le> i" and "i \<le> ahi"
    and "alo \<le> fst best" and "fst best + snd (snd best) \<le> i"
  shows "alo \<le> fst (scan_rows a b blo bhi i ahi (j2len, best))
       \<and> fst (scan_rows a b blo bhi i ahi (j2len, best))
           + snd (snd (scan_rows a b blo bhi i ahi (j2len, best))) \<le> ahi"
  using assms
proof (induction a b blo bhi i ahi "(j2len, best)" arbitrary: j2len best rule: scan_rows.induct)
  case (1 a b blo bhi i ahi j2len best)
  show ?case
  proof (cases "i < ahi")
    case False
    with "1.prems" show ?thesis by (simp add: scan_rows.simps)
  next
    case True
    obtain new' best' where row:
      "scan_row i blo bhi j2len (b2j b (a ! i)) (Map.empty, best) = (new', best')"
      by (cases "scan_row i blo bhi j2len (b2j b (a ! i)) (Map.empty, best)")
    have inv: "(\<forall>j v. new' j = Some v \<longrightarrow> v + alo \<le> i + 1)
       \<and> alo \<le> fst best' \<and> fst best' + snd (snd best') \<le> i + 1"
      using "1.prems" by (intro scan_row_bounds [OF _ _ _ _ _ row]) auto
    have "alo \<le> fst (scan_rows a b blo bhi (i + 1) ahi (new', best'))
       \<and> fst (scan_rows a b blo bhi (i + 1) ahi (new', best'))
           + snd (snd (scan_rows a b blo bhi (i + 1) ahi (new', best'))) \<le> ahi"
      using True inv "1.prems"(2) by (intro "1.hyps" [OF True row]) auto
    then show ?thesis
      using True row by (subst (1 2 3) scan_rows.simps) simp
  qed
qed

lemma extend_left_bounds:
  "alo \<le> besti \<Longrightarrow>
   alo \<le> fst (extend_left a b alo blo (besti, bestj, bestsize))
   \<and> fst (extend_left a b alo blo (besti, bestj, bestsize))
       + snd (snd (extend_left a b alo blo (besti, bestj, bestsize))) = besti + bestsize"
proof (induction a b alo blo "(besti, bestj, bestsize)" arbitrary: besti bestj bestsize
      rule: extend_left.induct)
  case (1 a b alo blo besti bestj bestsize)
  show ?case
  proof (cases "alo < besti \<and> blo < bestj \<and> a ! (besti - 1) = b ! (bestj - 1)")
    case True
    then have "alo \<le> besti - 1" by linarith
    from "1.hyps" [OF True this] True show ?thesis
      by (subst (1 2 3) extend_left.simps) simp
  next
    case False
    with "1.prems" show ?thesis
      by (subst (1 2 3) extend_left.simps) auto
  qed
qed

lemma extend_right_bounds:
  "besti + bestsize \<le> ahi \<Longrightarrow>
   fst (extend_right a b ahi bhi (besti, bestj, bestsize)) = besti
   \<and> besti + snd (snd (extend_right a b ahi bhi (besti, bestj, bestsize))) \<le> ahi"
proof (induction a b ahi bhi "(besti, bestj, bestsize)" arbitrary: besti bestj bestsize
      rule: extend_right.induct)
  case (1 a b ahi bhi besti bestj bestsize)
  show ?case
  proof (cases "besti + bestsize < ahi \<and> bestj + bestsize < bhi
         \<and> a ! (besti + bestsize) = b ! (bestj + bestsize)")
    case True
    then have "besti + (bestsize + 1) \<le> ahi" by simp
    from "1.hyps" [OF True this] True show ?thesis
      by (subst (1 2) extend_right.simps) simp
  next
    case False
    with "1.prems" show ?thesis
      by (subst (1 2) extend_right.simps) auto
  qed
qed

lemma find_longest_match_bounds:
  assumes "alo \<le> ahi"
  shows "alo \<le> fst (find_longest_match a b alo ahi blo bhi)
       \<and> fst (find_longest_match a b alo ahi blo bhi)
           + snd (snd (find_longest_match a b alo ahi blo bhi)) \<le> ahi"
proof -
  obtain i j k where s: "scan_rows a b blo bhi alo ahi (Map.empty, (alo, blo, 0)) = (i, j, k)"
    by (cases "scan_rows a b blo bhi alo ahi (Map.empty, (alo, blo, 0))")
  have "alo \<le> fst (scan_rows a b blo bhi alo ahi (Map.empty, (alo, blo, 0)))
       \<and> fst (scan_rows a b blo bhi alo ahi (Map.empty, (alo, blo, 0)))
           + snd (snd (scan_rows a b blo bhi alo ahi (Map.empty, (alo, blo, 0)))) \<le> ahi"
    using assms by (intro scan_rows_bounds) auto
  then have 1: "alo \<le> i" "i + k \<le> ahi"
    by (simp_all add: s)
  obtain i' j' k' where l: "extend_left a b alo blo (i, j, k) = (i', j', k')"
    by (cases "extend_left a b alo blo (i, j, k)")
  have 2: "alo \<le> i'" "i' + k' = i + k"
    using extend_left_bounds [OF 1(1), of a b blo j k] by (simp_all add: l)
  have "i' + k' \<le> ahi"
    using 1 2 by simp
  from extend_right_bounds [OF this, of a b bhi j'] 2 show ?thesis
    by (simp add: find_longest_match_def s l)
qed

text \<open>
  \<^verbatim>\<open>get_matching_blocks\<close> takes a region from its queue, records the longest match in it
  and queues the regions to its left and to its right. \<^verbatim>\<open>ratio\<close> reads only the sum of the
  sizes of the blocks, which neither the later sort nor the merge of adjacent blocks
  changes: \<open>matches\<close> is that sum.
\<close>

lemma find_longest_match_empty:
  assumes "ahi < alo"
  shows "find_longest_match a b alo ahi blo bhi = (alo, blo, 0)"
proof -
  have "scan_rows a b blo bhi alo ahi (Map.empty, (alo, blo, 0)) = (alo, blo, 0)"
    using assms by (simp add: scan_rows.simps)
  moreover have "extend_left a b alo blo (alo, blo, 0) = (alo, blo, 0)"
    by (simp add: extend_left.simps)
  moreover have "extend_right a b ahi bhi (alo, blo, 0) = (alo, blo, 0)"
    using assms by (simp add: extend_right.simps)
  ultimately show ?thesis
    by (simp add: find_longest_match_def)
qed

lemma find_longest_match_inside:
  assumes "find_longest_match a b alo ahi blo bhi = (i, j, k)" and "k \<noteq> 0"
  shows "alo \<le> i \<and> i + k \<le> ahi"
proof (cases "alo \<le> ahi")
  case True
  from find_longest_match_bounds [OF this, of a b blo bhi] assms(1) show ?thesis
    by simp
next
  case False
  then have "find_longest_match a b alo ahi blo bhi = (alo, blo, 0)"
    by (intro find_longest_match_empty) simp
  with assms show ?thesis by simp
qed

function matches :: "string \<Rightarrow> string \<Rightarrow> nat \<Rightarrow> nat \<Rightarrow> nat \<Rightarrow> nat \<Rightarrow> nat" where
  "matches a b alo ahi blo bhi =
     (case find_longest_match a b alo ahi blo bhi of
        (i, j, k) \<Rightarrow>
          if k = 0 then 0
          else k
            + (if alo < i \<and> blo < j then matches a b alo i blo j else 0)
            + (if i + k < ahi \<and> j + k < bhi then matches a b (i + k) ahi (j + k) bhi else 0))"
  by pat_completeness auto
termination
proof (relation "measure (\<lambda>(a, b, alo, ahi, blo, bhi). ahi - alo)", goal_cases)
  case 1
  show ?case by simp
next
  case (2 a b alo ahi blo bhi i y j k)
  then have "find_longest_match a b alo ahi blo bhi = (i, j, k)" by simp
  from find_longest_match_inside [OF this] 2(3,4) show ?case
    by auto
next
  case (3 a b alo ahi blo bhi i y j k)
  then have "find_longest_match a b alo ahi blo bhi = (i, j, k)" by simp
  from find_longest_match_inside [OF this] 3(3,4) show ?case
    by auto
qed

declare matches.simps [simp del]

text \<open>\<^verbatim>\<open>_calculate_ratio\<close>: \<^verbatim>\<open>2.0 * matches / length\<close>, or \<^verbatim>\<open>1.0\<close> when the length is 0.\<close>

definition ratio :: "string \<Rightarrow> string \<Rightarrow> real" where
  "ratio a b =
     (if length a + length b = 0 then 1
      else fdiv (fmul 2 (float_of_nat (matches a b 0 (length a) 0 (length b))))
             (float_of_nat (length a + length b)))"

section \<open>Path similarity\<close>

text \<open>
  \<^verbatim>\<open>path_similarity\<close>. The two calls of \<^verbatim>\<open>_path_segs\<close> run in the order of the source, and
  the exception of either is the result. The score is computed on floats, each product
  and each sum rounded, the sums from left to right.
\<close>

definition path_similarity :: "(string \<Rightarrow> bool) \<Rightarrow> string \<Rightarrow> string \<Rightarrow> error + real" where
  "path_similarity ipok a_url b_url =
     (if a_url = [] \<or> b_url = [] then Inr 0
      else if a_url = b_url then Inr 100
      else
        (case path_segs ipok a_url of
           Inl e \<Rightarrow> Inl e
         | Inr a_segs \<Rightarrow>
             (case path_segs ipok b_url of
                Inl e \<Rightarrow> Inl e
              | Inr b_segs \<Rightarrow>
                  if a_segs = [] \<and> b_segs = [] then Inr 0
                  else
                    let sa = set a_segs; sb = set b_segs;
                        inter = card (sa \<inter> sb);
                        union = max 1 (card (sa \<union> sb));
                        jacc = truediv inter union;
                        last_match = (if a_segs \<noteq> [] \<and> b_segs \<noteq> []
                                         \<and> last a_segs = last b_segs then 1 else 0);
                        a_path = join ''/'' a_segs;
                        b_path = join ''/'' b_segs;
                        suffix_match = (if suffix b_path a_path \<or> suffix a_path b_path
                                        then 1 else 0);
                        sm = ratio a_path b_path;
                        score = fadd (fadd (fadd (fmul jacc 40) (fmul last_match 20))
                                       (fmul suffix_match 15)) (fmul sm 25)
                    in Inr (min 100 score))))"

section \<open>The candidate pool and the best match\<close>

type_synonym candidate = "string \<times> string"

type_synonym pool = "string \<rightharpoonup> candidate list"

text \<open>
  \<^verbatim>\<open>re.findall(r'\[([^\]]+)\]', label)\<close>: at an opening bracket, the text up to the next
  closing bracket when that text is not empty and the closing bracket exists; the search
  goes on after the closing bracket, or at the next character when there is no match.
\<close>

function findall_bracketed :: "string \<Rightarrow> string list" where
  "findall_bracketed [] = []"
| "findall_bracketed (c # cs) =
     (if c = CHR ''['' \<and> before CHR '']'' cs \<noteq> [] \<and> CHR '']'' \<in> set cs
      then before CHR '']'' cs # findall_bracketed (after CHR '']'' cs)
      else findall_bracketed cs)"
  by pat_completeness auto
termination
  by (relation "measure length") (auto simp: after_def intro: le_imp_less_Suc order_trans [OF diff_le_self length_dropWhile_le])

text \<open>The last bracketed piece of the label in lower case, or the whole label.\<close>

definition lbl_last :: "string \<Rightarrow> string" where
  "lbl_last label =
     (if label \<noteq> []
      then py_lower (case findall_bracketed label of [] \<Rightarrow> label | m # ms \<Rightarrow> last (m # ms))
      else [])"

type_synonym best = "string option \<times> real \<times> string option"

text \<open>
  The score \<open>s\<close> of one candidate in the loop of \<^verbatim>\<open>best_menu_for_url\<close>: its path
  similarity, plus 5 when the last segment of the query occurs in the last piece of the
  label.
\<close>

definition cand_score :: "(string \<Rightarrow> bool) \<Rightarrow> string \<Rightarrow> string \<Rightarrow> candidate \<Rightarrow> error + real" where
  "cand_score ipok url tgt_last c =
     (case path_similarity ipok url (snd c) of
        Inl e \<Rightarrow> Inl e
      | Inr s \<Rightarrow>
          if tgt_last \<noteq> [] \<and> lbl_last (fst c) \<noteq> [] \<and> py_in tgt_last (lbl_last (fst c))
          then Inr (fadd s 5) else Inr s)"

text \<open>The loop over the candidates, from a running best.\<close>

fun best_loop :: "(string \<Rightarrow> bool) \<Rightarrow> string \<Rightarrow> string \<Rightarrow> candidate list \<Rightarrow> best \<Rightarrow> error + best" where
  "best_loop ipok url tgt_last [] st = Inr st"
| "best_loop ipok url tgt_last (c # cs) (best_label, best_score, best_cand) =
     (case cand_score ipok url tgt_last c of
        Inl e \<Rightarrow> Inl e
      | Inr s \<Rightarrow>
          if best_score < s
          then best_loop ipok url tgt_last cs (Some (fst c), s, Some (snd c))
          else best_loop ipok url tgt_last cs (best_label, best_score, best_cand))"

text \<open>
  The check of a Python without \<^verbatim>\<open>_check_bracketed_host\<close>, for the closed examples
  (none of them has a bracket).
\<close>

definition accept_any :: "string \<Rightarrow> bool" where
  "accept_any h \<longleftrightarrow> True"

text \<open>
  The candidates of a query: those of the host of the URL, then those of the host of the
  referrer when there is a referrer, its host key is not empty, differs and is in the pool.
\<close>

definition candidates_for :: "(string \<Rightarrow> bool) \<Rightarrow> string \<Rightarrow> pool \<Rightarrow> string option
    \<Rightarrow> error + candidate list" where
  "candidates_for ipok url pool referer_url =
     (case hostkey ipok url of
        Inl e \<Rightarrow> Inl e
      | Inr hostk \<Rightarrow>
          let candidates = (case pool hostk of None \<Rightarrow> [] | Some cs \<Rightarrow> cs)
          in if referer_url \<noteq> None \<and> referer_url \<noteq> Some []
             then
               (case hostkey ipok (the referer_url) of
                  Inl e \<Rightarrow> Inl e
                | Inr rhostk \<Rightarrow>
                    if rhostk \<noteq> [] \<and> rhostk \<noteq> hostk \<and> pool rhostk \<noteq> None
                    then Inr (candidates @ the (pool rhostk))
                    else Inr candidates)
             else Inr candidates)"

definition best_menu_for_url :: "(string \<Rightarrow> bool) \<Rightarrow> string \<Rightarrow> pool \<Rightarrow> string option \<Rightarrow> real
    \<Rightarrow> error + best" where
  "best_menu_for_url ipok url pool referer_url threshold =
     (if url = [] then Inr (None, 0, None)
      else
        (case candidates_for ipok url pool referer_url of
           Inl e \<Rightarrow> Inl e
         | Inr candidates \<Rightarrow>
             if candidates = [] then Inr (None, 0, None)
             else
               (case path_segs ipok url of
                  Inl e \<Rightarrow> Inl e
                | Inr tgt_segs \<Rightarrow>
                    let tgt_last = py_lower (if tgt_segs \<noteq> [] then last tgt_segs else [])
                    in (case best_loop ipok url tgt_last candidates (None, 0, None) of
                          Inl e \<Rightarrow> Inl e
                        | Inr (best_label, best_score, best_cand) \<Rightarrow>
                            if threshold \<le> best_score
                            then Inr (best_label, best_score, best_cand)
                            else Inr (None, best_score, best_cand)))))"

section \<open>Building the pool\<close>

text \<open>
  \<^verbatim>\<open>build_candidate_pool_from_saz\<close>. The archive is its list of names and its \<^verbatim>\<open>read\<close>,
  which can raise. The four functions of the module that the loop calls on the bytes of
  an exchange are parameters, and each can raise: the functions can be anything.
\<close>

type_synonym bytes = string

type_synonym headers = "string \<rightharpoonup> string"

record zipfile =
  namelist :: "string list"
  read :: "string \<Rightarrow> error + bytes"

record parts =
  parse_response_bytes :: "bytes \<Rightarrow> error + headers \<times> bytes"
  parse_request_bytes :: "bytes \<Rightarrow> error + string \<times> string \<times> headers \<times> bytes"
  decode_body :: "bytes \<Rightarrow> headers \<Rightarrow> error + string"
  extract_menu_candidates_from_html :: "string \<Rightarrow> string \<Rightarrow> error + candidate list"

text \<open>\<^verbatim>\<open>headers.get(k1) or headers.get(k2) or ''\<close>, for a list of keys.\<close>

fun get_first :: "headers \<Rightarrow> string list \<Rightarrow> string" where
  "get_first h [] = []"
| "get_first h (k # ks) =
     (case h k of None \<Rightarrow> get_first h ks | Some v \<Rightarrow> if v \<noteq> [] then v else get_first h ks)"

definition content_type_is_html :: "headers \<Rightarrow> bool" where
  "content_type_is_html h =
     (let ctype = py_lower (get_first h [''Content-Type'', ''content-type''])
      in py_in ''text/html'' ctype \<or> py_in ''application/xhtml+xml'' ctype)"

text \<open>
  \<^verbatim>\<open>re.search(r'raw/(\d+)_s\.txt$', sname)\<close>: the digits are the whole run of digits
  before the final \<^verbatim>\<open>_s.txt\<close>, and \<^verbatim>\<open>raw/\<close> stands before them.
\<close>

definition session_number :: "string \<Rightarrow> string option" where
  "session_number sname =
     (let body = (if sname \<noteq> [] \<and> last sname = CHR 0x0A then butlast sname else sname);
          stem = take (length body - 6) body;
          mnum = rev (takeWhile is_digit (rev stem));
          pre = take (length stem - length mnum) stem
      in if suffix ''_s.txt'' body \<and> mnum \<noteq> [] \<and> suffix ''raw/'' pre then Some mnum else None)"

text \<open>
  \<^verbatim>\<open>f'{int(mnum):04d}'\<close> on a run of digits: the number without its leading zeros, padded
  with zeros to four digits. \<^verbatim>\<open>int\<close> raises \<^verbatim>\<open>ValueError\<close> beyond 4300 digits.
\<close>

definition int_04d :: "string \<Rightarrow> error + string" where
  "int_04d mnum =
     (let ds = dropWhile (\<lambda>c. c = CHR ''0'') mnum;
          n = (if ds = [] then ''0'' else ds)
      in if 4300 < length mnum then Inl ValueError
         else Inr (replicate (4 - length n) CHR ''0'' @ n))"

definition request_name :: "zipfile \<Rightarrow> string \<Rightarrow> error + string option" where
  "request_name zf mnum =
     (let reqn = ''raw/'' @ mnum @ ''_c.txt''
      in if reqn \<in> set (namelist zf) then Inr (Some reqn)
         else
           (case int_04d mnum of
              Inl e \<Rightarrow> Inl e
            | Inr d \<Rightarrow>
                let reqn2 = ''raw/'' @ d @ ''_c.txt''
                in if reqn2 \<in> set (namelist zf) then Inr (Some reqn2) else Inr None))"

definition referer_scheme :: "(string \<Rightarrow> bool) \<Rightarrow> string \<Rightarrow> error + string" where
  "referer_scheme ipok ref =
     (if prefix ''http'' ref
      then (case urlparse ipok ref of Inl e \<Rightarrow> Inl e | Inr r \<Rightarrow> Inr (scheme r))
      else Inr ''https'')"

text \<open>
  The body of the \<^verbatim>\<open>try\<close> for one response name: \<open>Inl\<close> when it raises, \<open>Inr None\<close> when
  it leaves by \<^verbatim>\<open>continue\<close>, and otherwise the host key and the candidates that it adds to
  the pool.
\<close>

definition and_then :: "error + 'a \<Rightarrow> ('a \<Rightarrow> error + 'b) \<Rightarrow> error + 'b" where
  "and_then m f = (case m of Inl e \<Rightarrow> Inl e | Inr x \<Rightarrow> f x)"

text \<open>From the headers of the request on: lines 565 to 581.\<close>

definition mine :: "parts \<Rightarrow> (string \<Rightarrow> bool) \<Rightarrow> headers \<Rightarrow> bytes \<Rightarrow> string \<Rightarrow> headers
    \<Rightarrow> error + (string \<times> candidate list) option" where
  "mine ps ipok resp_headers resp_body target hdrs =
     (let host = get_first hdrs [''Host'', ''host'']
      in if host = [] then Inr None
         else
           let ref = get_first hdrs [''Referer'', ''referer'', ''Origin'', ''origin'']
           in and_then (referer_scheme ipok ref) (\<lambda>sch.
                let current_url = (if prefix ''http'' target then target
                                   else sch @ ''://'' @ host @ target)
                in and_then (decode_body ps resp_body resp_headers) (\<lambda>html.
                   and_then (extract_menu_candidates_from_html ps html current_url) (\<lambda>cands.
                     if cands = [] then Inr None
                     else and_then (hostkey ipok current_url) (\<lambda>key.
                            Inr (Some (key, cands)))))))"

text \<open>From the name of the request on: lines 556 to 564.\<close>

definition paired :: "parts \<Rightarrow> (string \<Rightarrow> bool) \<Rightarrow> zipfile \<Rightarrow> headers \<Rightarrow> bytes \<Rightarrow> string
    \<Rightarrow> error + (string \<times> candidate list) option" where
  "paired ps ipok zf resp_headers resp_body mnum =
     and_then (request_name zf mnum) (\<lambda>found.
       case found of
         None \<Rightarrow> Inr None
       | Some reqn \<Rightarrow>
           and_then (read zf reqn) (\<lambda>cdata.
           and_then (parse_request_bytes ps cdata) (\<lambda>(method, target, hdrs, body).
             mine ps ipok resp_headers resp_body target hdrs)))"

definition exchange :: "parts \<Rightarrow> (string \<Rightarrow> bool) \<Rightarrow> zipfile \<Rightarrow> string
    \<Rightarrow> error + (string \<times> candidate list) option" where
  "exchange ps ipok zf sname =
     and_then (read zf sname) (\<lambda>sdata.
     and_then (parse_response_bytes ps sdata) (\<lambda>(resp_headers, resp_body).
       if \<not> content_type_is_html resp_headers then Inr None
       else
         case session_number sname of
           None \<Rightarrow> Inr None
         | Some mnum \<Rightarrow> paired ps ipok zf resp_headers resp_body mnum))"

text \<open>\<^verbatim>\<open>pool.setdefault(key, []); pool[key].extend(cands)\<close>.\<close>

definition extend_pool :: "pool \<Rightarrow> string \<Rightarrow> candidate list \<Rightarrow> pool" where
  "extend_pool pool key cands =
     pool(key \<mapsto> (case pool key of None \<Rightarrow> [] | Some cs \<Rightarrow> cs) @ cands)"

text \<open>
  The \<^verbatim>\<open>finally\<close> of an item: the progress callback, when there is one, runs after the
  first item, every \<open>progress_every\<close> items and after the last. It is outside the \<^verbatim>\<open>try\<close>:
  what it raises leaves the function, and so does the division by a \<open>progress_every\<close>
  of zero.
\<close>

definition after_item :: "(nat \<Rightarrow> nat \<Rightarrow> error option) option \<Rightarrow> int \<Rightarrow> nat \<Rightarrow> nat \<Rightarrow> error option" where
  "after_item progress progress_every i total_n =
     (case progress of
        None \<Rightarrow> None
      | Some f \<Rightarrow>
          if i = 1 then f i total_n
          else if progress_every = 0 then Some ZeroDivisionError
          else if int i mod progress_every = 0 \<or> i = total_n then f i total_n
          else None)"

fun scan :: "parts \<Rightarrow> (string \<Rightarrow> bool) \<Rightarrow> zipfile \<Rightarrow> (nat \<Rightarrow> nat \<Rightarrow> error option) option \<Rightarrow> int
    \<Rightarrow> nat \<Rightarrow> nat \<Rightarrow> string list \<Rightarrow> pool \<Rightarrow> error + pool" where
  "scan ps ipok zf progress progress_every total_n i [] pool = Inr pool"
| "scan ps ipok zf progress progress_every total_n i (sname # names) pool =
     (let pool' = (case exchange ps ipok zf sname of
                     Inl e \<Rightarrow> pool
                   | Inr None \<Rightarrow> pool
                   | Inr (Some (key, cands)) \<Rightarrow> extend_pool pool key cands)
      in case after_item progress progress_every i total_n of
           Some e \<Rightarrow> Inl e
         | None \<Rightarrow> scan ps ipok zf progress progress_every total_n (i + 1) names pool')"

text \<open>The removal of duplicates: the loop over a list with the set \<open>seen\<close> and the list \<open>uniq\<close>.\<close>

fun uniq_loop :: "'a list \<Rightarrow> 'a set \<times> 'a list \<Rightarrow> 'a set \<times> 'a list" where
  "uniq_loop [] st = st"
| "uniq_loop (k # ks) (seen, uniq) =
     (if k \<notin> seen then uniq_loop ks (insert k seen, uniq @ [k]) else uniq_loop ks (seen, uniq))"

definition dedup :: "'a list \<Rightarrow> 'a list" where
  "dedup xs = snd (uniq_loop xs ({}, []))"

definition response_names :: "zipfile \<Rightarrow> string list" where
  "response_names zf = filter (\<lambda>n. prefix ''raw/'' n \<and> suffix ''_s.txt'' n) (namelist zf)"

definition build_candidate_pool_from_saz :: "parts \<Rightarrow> (string \<Rightarrow> bool) \<Rightarrow> zipfile
    \<Rightarrow> (nat \<Rightarrow> nat \<Rightarrow> error option) option \<Rightarrow> int \<Rightarrow> error + pool" where
  "build_candidate_pool_from_saz ps ipok zf progress progress_every =
     (let names = response_names zf
      in case scan ps ipok zf progress progress_every (length names) 1 names Map.empty of
           Inl e \<Rightarrow> Inl e
         | Inr pool \<Rightarrow> Inr (\<lambda>h. map_option dedup (pool h)))"

section \<open>Scenario B\<close>

lemma hostkey_ex: "hostkey ipok ''https://ex.com/about'' = Inr ''ex.com''"
  by code_simp

lemma path_segs_about: "path_segs ipok ''https://ex.com/about'' = Inr [''about'']"
  by code_simp

lemma lbl_last_About: "lbl_last ''[About]'' = ''about''"
  by code_simp

lemma py_in_about: "py_in ''about'' ''about''"
  by code_simp

lemma py_lower_about: "py_lower ''about'' = ''about''"
  by code_simp

lemma scenario_B_eval:
  assumes "pool ''ex.com'' = Some [(''[About]'', ''https://ex.com/about'')]"
  shows "best_menu_for_url ipok ''https://ex.com/about'' pool None 58
    = Inr (Some ''[About]'', 105, Some ''https://ex.com/about'')"
  using assms
  by (simp add: best_menu_for_url_def candidates_for_def hostkey_ex path_segs_about
      lbl_last_About py_in_about py_lower_about path_similarity_def cand_score_def fadd_100_5)

text \<open>
  Claim C1, as the code has it: against a pool whose entry for host \<open>ex.com\<close> is the single
  candidate \<open>("[About]", "https://ex.com/about")\<close>, the query \<open>https://ex.com/about\<close> with no
  referrer and threshold 58 returns that label and that URL with the score 105: the path
  similarity of identical URLs is 100, and the last segment \<open>about\<close> of the query occurs
  in the label, which adds 5.
\<close>

theorem scenario_B_returns_105:
  "pool ''ex.com'' = Some [(''[About]'', ''https://ex.com/about'')] \<Longrightarrow>
   best_menu_for_url ipok ''https://ex.com/about'' pool None 58
     = Inr (Some ''[About]'', 105, Some ''https://ex.com/about'')"
  by (rule scenario_B_eval)

theorem scenario_B_returns_105_witness:
  "[''ex.com'' \<mapsto> [(''[About]'', ''https://ex.com/about'')]] ''ex.com''
     = Some [(''[About]'', ''https://ex.com/about'')]
   \<and> best_menu_for_url accept_any ''https://ex.com/about''
       [''ex.com'' \<mapsto> [(''[About]'', ''https://ex.com/about'')]] None 58
     = Inr (Some ''[About]'', 105, Some ''https://ex.com/about'')"
  using scenario_B_returns_105
    [of "[''ex.com'' \<mapsto> [(''[About]'', ''https://ex.com/about'')]]" accept_any]
  by simp

text \<open>Claim C1 as stated fails: the triple with the score 100 is not what is returned.\<close>

theorem scenario_B_not_100:
  "best_menu_for_url accept_any ''https://ex.com/about''
       [''ex.com'' \<mapsto> [(''[About]'', ''https://ex.com/about'')]] None 58
     \<noteq> Inr (Some ''[About]'', 100, Some ''https://ex.com/about'')"
  by (simp add: scenario_B_eval)

section \<open>The range of the score\<close>

lemma path_similarity_le_100:
  "path_similarity ipok a b = Inr s \<Longrightarrow> s \<le> 100"
  by (auto simp: path_similarity_def Let_def split: if_splits sum.splits)

lemma fadd_5_le_105: "s \<le> 100 \<Longrightarrow> fadd s 5 \<le> 105"
  using rnd_le_int [of "s + 5" 105] by (simp add: fadd_def)

lemma cand_score_le_105:
  "cand_score ipok url tgt_last c = Inr s \<Longrightarrow> s \<le> 105"
  by (auto simp: cand_score_def split: if_splits sum.splits
      dest: path_similarity_le_100 intro: fadd_5_le_105)

lemma best_loop_score_range:
  "best_loop ipok url tgt_last cs (bl, bs, bc) = Inr (bl', bs', bc') \<Longrightarrow>
   0 \<le> bs \<Longrightarrow> bs \<le> 105 \<Longrightarrow> 0 \<le> bs' \<and> bs' \<le> 105"
proof (induction cs arbitrary: bl bs bc)
  case Nil
  then show ?case by simp
next
  case (Cons c cs)
  from Cons.prems(1) obtain s where s: "cand_score ipok url tgt_last c = Inr s"
    by (auto split: sum.splits)
  show ?case
  proof (cases "bs < s")
    case True
    with Cons.prems s have "best_loop ipok url tgt_last cs (Some (fst c), s, Some (snd c)) = Inr (bl', bs', bc')"
      by simp
    moreover have "0 \<le> s" "s \<le> 105"
      using True Cons.prems(2) cand_score_le_105 [OF s] by simp_all
    ultimately show ?thesis
      by (rule Cons.IH)
  next
    case False
    with Cons.prems s have "best_loop ipok url tgt_last cs (bl, bs, bc) = Inr (bl', bs', bc')"
      by simp
    then show ?thesis
      using Cons.prems(2,3) by (rule Cons.IH)
  qed
qed

text \<open>
  Claim C2, as the code has it: whenever \<^verbatim>\<open>best_menu_for_url\<close> returns, the score of its
  triple lies between 0 and 105. The path similarity is capped at 100 and the bonus of 5
  is added after the cap, and rounding the sum does not pass 105; the running best starts
  at 0 and only a larger score replaces it.
\<close>

theorem score_between_0_and_105:
  "best_menu_for_url ipok url pool referer_url threshold = Inr (label, score, matched) \<Longrightarrow>
   0 \<le> score \<and> score \<le> 105"
  by (auto simp: best_menu_for_url_def Let_def split: if_splits sum.splits prod.splits
      dest: best_loop_score_range)


theorem score_between_0_and_105_witness:
  "best_menu_for_url accept_any ''https://ex.com/about''
       [''ex.com'' \<mapsto> [(''[About]'', ''https://ex.com/about'')]] None 58
     = Inr (Some ''[About]'', 105, Some ''https://ex.com/about'')
   \<and> (0::real) \<le> 105 \<and> (105::real) \<le> 105"
proof -
  have run: "best_menu_for_url accept_any ''https://ex.com/about''
       [''ex.com'' \<mapsto> [(''[About]'', ''https://ex.com/about'')]] None 58
     = Inr (Some ''[About]'', 105, Some ''https://ex.com/about'')"
    by (simp add: scenario_B_eval)
  from score_between_0_and_105 [OF run] run show ?thesis
    by simp
qed

text \<open>
  Claim C2 as stated fails: in scenario B the returned score is not in the interval from
  0 to 100.
\<close>

theorem score_above_100:
  "\<not> (case best_menu_for_url accept_any ''https://ex.com/about''
            [''ex.com'' \<mapsto> [(''[About]'', ''https://ex.com/about'')]] None 58 of
          Inl e \<Rightarrow> True
        | Inr (label, score, matched) \<Rightarrow> 0 \<le> score \<and> score \<le> 100)"
  by (simp add: scenario_B_eval)

section \<open>Host scoping\<close>

text \<open>
  The candidates the pool holds under the host key of a URL, and those under the host key
  of the query or of the referrer.
\<close>

definition host_entries :: "(string \<Rightarrow> bool) \<Rightarrow> pool \<Rightarrow> string \<Rightarrow> candidate set" where
  "host_entries ipok pool u =
     (case hostkey ipok u of
        Inl e \<Rightarrow> {}
      | Inr hk \<Rightarrow> (case pool hk of None \<Rightarrow> {} | Some cs \<Rightarrow> set cs))"

definition scoped_entries :: "(string \<Rightarrow> bool) \<Rightarrow> pool \<Rightarrow> string \<Rightarrow> string option \<Rightarrow> candidate set" where
  "scoped_entries ipok pool url referer_url =
     host_entries ipok pool url
       \<union> (case referer_url of None \<Rightarrow> {} | Some r \<Rightarrow> host_entries ipok pool r)"

lemma candidates_for_scoped:
  "candidates_for ipok url pool referer_url = Inr cs \<Longrightarrow>
   set cs \<subseteq> scoped_entries ipok pool url referer_url"
  by (auto simp: candidates_for_def scoped_entries_def host_entries_def Let_def
      split: sum.splits option.splits if_splits)

lemma best_loop_from_candidates:
  "best_loop ipok url tgt_last cs (bl, bs, bc) = Inr (bl', bs', bc') \<Longrightarrow>
   set cs \<subseteq> S \<Longrightarrow>
   (bl = None \<and> bc = None) \<or> (\<exists>l c. bl = Some l \<and> bc = Some c \<and> (l, c) \<in> S) \<Longrightarrow>
   (bl' = None \<and> bc' = None) \<or> (\<exists>l c. bl' = Some l \<and> bc' = Some c \<and> (l, c) \<in> S)"
proof (induction cs arbitrary: bl bs bc)
  case Nil
  then show ?case by simp
next
  case (Cons c cs)
  from Cons.prems(1) obtain s where s: "cand_score ipok url tgt_last c = Inr s"
    by (auto split: sum.splits)
  have sub: "set cs \<subseteq> S" and c: "(fst c, snd c) \<in> S"
    using Cons.prems(2) by auto
  show ?case
  proof (cases "bs < s")
    case True
    with Cons.prems(1) s have "best_loop ipok url tgt_last cs (Some (fst c), s, Some (snd c)) = Inr (bl', bs', bc')"
      by simp
    then show ?thesis
      using sub c by (intro Cons.IH [of "Some (fst c)" s "Some (snd c)"]) auto
  next
    case False
    with Cons.prems(1) s have "best_loop ipok url tgt_last cs (bl, bs, bc) = Inr (bl', bs', bc')"
      by simp
    then show ?thesis
      using sub Cons.prems(3) by (rule Cons.IH)
  qed
qed

text \<open>
  Claim C6: whenever \<^verbatim>\<open>best_menu_for_url\<close> returns, either it reports no matched URL and
  no label, or the matched URL is the URL of a candidate that the pool holds under the
  host key of the query URL or under the host key of the referrer, and the label, when
  there is one, is the label of that same candidate. A candidate held only under another
  host key is never the match.
\<close>

theorem match_is_host_scoped:
  "best_menu_for_url ipok url pool referer_url threshold = Inr (label, score, matched) \<Longrightarrow>
   (matched = None \<and> label = None)
   \<or> (\<exists>l cu. matched = Some cu \<and> (l, cu) \<in> scoped_entries ipok pool url referer_url
         \<and> (label = None \<or> label = Some l))"
proof -
  assume run: "best_menu_for_url ipok url pool referer_url threshold = Inr (label, score, matched)"
  let ?S = "scoped_entries ipok pool url referer_url"
  show ?thesis
  proof (cases "url = []")
    case True
    with run show ?thesis by (auto simp: best_menu_for_url_def)
  next
    case False
    with run obtain cs where cs: "candidates_for ipok url pool referer_url = Inr cs"
      by (auto simp: best_menu_for_url_def split: sum.splits)
    show ?thesis
    proof (cases "cs = []")
      case True
      with run False cs show ?thesis by (auto simp: best_menu_for_url_def)
    next
      case nonempty: False
      with run False cs obtain segs where segs: "path_segs ipok url = Inr segs"
        by (auto simp: best_menu_for_url_def split: sum.splits)
      define tgt_last where "tgt_last = py_lower (if segs \<noteq> [] then last segs else [])"
      from run False cs nonempty segs obtain bl bs bc where
        loop: "best_loop ipok url tgt_last cs (None, 0, None) = Inr (bl, bs, bc)"
        and r: "(label, score, matched) = (if threshold \<le> bs then (bl, bs, bc) else (None, bs, bc))"
        by (auto simp: best_menu_for_url_def tgt_last_def Let_def split: sum.splits if_splits)
      have "(bl = None \<and> bc = None) \<or> (\<exists>l c. bl = Some l \<and> bc = Some c \<and> (l, c) \<in> ?S)"
        using loop candidates_for_scoped [OF cs] by (rule best_loop_from_candidates) simp
      then show ?thesis
        using r by (auto split: if_splits)
    qed
  qed
qed

definition two_hosts :: pool where
  "two_hosts = [''a.com'' \<mapsto> [(''A'', ''https://a.com/x'')],
                ''b.com'' \<mapsto> [(''B'', ''https://b.com/x'')]]"

lemma hostkey_b: "hostkey ipok ''https://b.com/x'' = Inr ''b.com''"
  by code_simp

lemma path_segs_b: "path_segs ipok ''https://b.com/x'' = Inr [''x'']"
  by code_simp

lemma lbl_last_B: "lbl_last ''B'' = ''b''"
  by code_simp

lemma two_hosts_eval:
  "best_menu_for_url ipok ''https://b.com/x'' two_hosts None 58
     = Inr (Some ''B'', 100, Some ''https://b.com/x'')"
  by (simp add: best_menu_for_url_def candidates_for_def hostkey_b path_segs_b two_hosts_def
      lbl_last_B path_similarity_def cand_score_def py_lower_def py_lower_char_def)

lemma scoped_two_hosts:
  "scoped_entries accept_any two_hosts ''https://b.com/x'' None = {(''B'', ''https://b.com/x'')}"
  by (simp add: scoped_entries_def host_entries_def hostkey_b two_hosts_def)

theorem match_is_host_scoped_witness:
  "best_menu_for_url accept_any ''https://b.com/x'' two_hosts None 58
     = Inr (Some ''B'', 100, Some ''https://b.com/x'')
   \<and> (''B'', ''https://b.com/x'') \<in> scoped_entries accept_any two_hosts ''https://b.com/x'' None
   \<and> (''A'', ''https://a.com/x'') \<notin> scoped_entries accept_any two_hosts ''https://b.com/x'' None"
  using match_is_host_scoped [OF two_hosts_eval [of accept_any]]
  by (simp add: two_hosts_eval scoped_two_hosts)

section \<open>When every candidate scores zero\<close>

lemma best_loop_all_zero:
  "\<forall>c \<in> set cs. cand_score ipok url tgt_last c = Inr 0 \<Longrightarrow>
   best_loop ipok url tgt_last cs (None, 0, None) = Inr (None, 0, None)"
  by (induction cs) simp_all

text \<open>
  Claim C10: for a non-empty query URL with a non-empty candidate set, when the score of
  every candidate (path similarity plus bonus) is 0, \<^verbatim>\<open>best_menu_for_url\<close> returns
  \<open>(None, 0, None)\<close> for every threshold: no candidate exceeds the running best, which
  starts at 0. The lemma after it is the example of the claim: a query and a candidate
  that are distinct texts with no path segment score 0.
\<close>

theorem zero_scores_return_no_match:
  assumes "url \<noteq> []"
    and "candidates_for ipok url pool referer_url = Inr cands"
    and "cands \<noteq> []"
    and "path_segs ipok url = Inr tgt_segs"
    and "\<forall>c \<in> set cands.
           cand_score ipok url (py_lower (if tgt_segs \<noteq> [] then last tgt_segs else [])) c = Inr 0"
  shows "best_menu_for_url ipok url pool referer_url threshold = Inr (None, 0, None)"
  using assms by (simp add: best_menu_for_url_def best_loop_all_zero)

lemma empty_paths_score_zero:
  assumes "path_segs ipok url = Inr []" and "path_segs ipok (snd c) = Inr []"
  shows "cand_score ipok url [] c = Inr 0 \<or> snd c = url"
  using assms by (auto simp: cand_score_def path_similarity_def)

definition home_pool :: pool where
  "home_pool = [''ex.com'' \<mapsto> [(''Home'', ''https://ex.com'')]]"

lemma hostkey_home: "hostkey ipok ''https://ex.com/'' = Inr ''ex.com''"
  by code_simp

lemma path_segs_home: "path_segs ipok ''https://ex.com/'' = Inr []"
  by code_simp

lemma path_segs_home': "path_segs ipok ''https://ex.com'' = Inr []"
  by code_simp

theorem zero_scores_return_no_match_witness:
  "best_menu_for_url accept_any ''https://ex.com/'' home_pool None 58 = Inr (None, 0, None)
   \<and> candidates_for accept_any ''https://ex.com/'' home_pool None
       = Inr [(''Home'', ''https://ex.com'')]"
proof -
  have c: "candidates_for accept_any ''https://ex.com/'' home_pool None
       = Inr [(''Home'', ''https://ex.com'')]"
    by (simp add: candidates_for_def hostkey_home home_pool_def)
  have z: "\<forall>c \<in> set [(''Home'', ''https://ex.com'')].
           cand_score accept_any ''https://ex.com/'' (py_lower (if [] \<noteq> [] then last [] else [])) c = Inr 0"
    using empty_paths_score_zero [of accept_any "''https://ex.com/''" "(''Home'', ''https://ex.com'')"]
    by (simp add: path_segs_home path_segs_home' py_lower_def)
  from zero_scores_return_no_match [OF _ c _ path_segs_home z, of 58] c show ?thesis
    by simp
qed

section \<open>The blend of path similarity\<close>

text \<open>
  The four measures as the specification words them: the Jaccard overlap of the two sets
  of segments with the denominator floored at 1, the equality of the last segments, the
  containment of one joined path as a suffix of the other, and the ratio of the joined
  paths; \<open>blend\<close> is their weighted sum capped at 100. The overlap is a quotient of two
  integers rounded to a double, and the weighted sum is taken on doubles from left to
  right, every product and every sum rounded.
\<close>

definition jaccard :: "string set \<Rightarrow> string set \<Rightarrow> real" where
  "jaccard A B = truediv (card (A \<inter> B)) (max 1 (card (A \<union> B)))"

definition last_equal :: "string list \<Rightarrow> string list \<Rightarrow> real" where
  "last_equal as bs = (if as \<noteq> [] \<and> bs \<noteq> [] \<and> last as = last bs then 1 else 0)"

definition suffix_containment :: "string \<Rightarrow> string \<Rightarrow> real" where
  "suffix_containment a b = (if suffix a b \<or> suffix b a then 1 else 0)"

definition blend :: "string list \<Rightarrow> string list \<Rightarrow> real" where
  "blend as bs =
     min 100
       (fadd (fadd (fadd (fmul (jaccard (set as) (set bs)) 40) (fmul (last_equal as bs) 20))
                (fmul (suffix_containment (join ''/'' as) (join ''/'' bs)) 15))
          (fmul (ratio (join ''/'' as) (join ''/'' bs)) 25))"

text \<open>
  Claim C3, as the code has it: if either URL is empty the path similarity is 0; if the
  URLs are the same non-empty text it is 100; otherwise, when \<^verbatim>\<open>urlparse\<close> accepts both
  URLs, for their segment sequences it is 0 when both sequences are empty and the blend
  of the four measures when one of them is not. The blend is a value of double
  arithmetic: for \<^verbatim>\<open>https://h/a/b\<close> and \<^verbatim>\<open>https://h/a/c\<close> it is the double below 30,
  \<^verbatim>\<open>29.999999999999996\<close>, where the sum of the exact terms is 30.
\<close>

theorem path_similarity_cases:
  "(a = [] \<or> b = [] \<longrightarrow> path_similarity ipok a b = Inr 0)
   \<and> (a \<noteq> [] \<and> a = b \<longrightarrow> path_similarity ipok a b = Inr 100)
   \<and> (a \<noteq> [] \<and> b \<noteq> [] \<and> a \<noteq> b \<and> path_segs ipok a = Inr as \<and> path_segs ipok b = Inr bs \<longrightarrow>
        path_similarity ipok a b = Inr (if as = [] \<and> bs = [] then 0 else blend as bs))"
  by (auto simp: path_similarity_def blend_def jaccard_def last_equal_def
      suffix_containment_def Let_def)

lemma segs_a_b: "path_segs ipok ''https://h/a/b'' = Inr [''a'', ''b'']"
  by code_simp

lemma segs_a_c: "path_segs ipok ''https://h/a/c'' = Inr [''a'', ''c'']"
  by code_simp

lemma blend_a_b_a_c:
  "blend [''a'', ''b''] [''a'', ''c''] = 8444249301319679 / 281474976710656"
  by code_simp

lemma segs_shop: "path_segs ipok ''https://a/shop/items/42'' = Inr [''shop'', ''items'', ''{id}'']"
  by code_simp

lemma segs_blog: "path_segs ipok ''https://a/blog/post/1'' = Inr [''blog'', ''post'', ''{id}'']"
  by code_simp

lemma blend_shop_blog:
  "blend [''shop'', ''items'', ''{id}''] [''blog'', ''post'', ''{id}'']
     = 2819602783946399 / 70368744177664"
  by code_simp

theorem path_similarity_cases_witness:
  "path_similarity accept_any ''https://h/a/b'' ''https://h/a/c''
     = Inr (8444249301319679 / 281474976710656)
   \<and> path_similarity accept_any ''https://a/shop/items/42'' ''https://a/blog/post/1''
       = Inr (2819602783946399 / 70368744177664)
   \<and> path_similarity accept_any [] ''https://h/x'' = Inr 0
   \<and> path_similarity accept_any ''https://h/x'' ''https://h/x'' = Inr 100"
  using path_similarity_cases [of "''https://h/a/b''" "''https://h/a/c''" accept_any
      "[''a'', ''b'']" "[''a'', ''c'']"]
    path_similarity_cases [of "''https://a/shop/items/42''" "''https://a/blog/post/1''" accept_any
      "[''shop'', ''items'', ''{id}'']" "[''blog'', ''post'', ''{id}'']"]
    path_similarity_cases [of "[]" "''https://h/x''" accept_any]
    path_similarity_cases [of "''https://h/x''" "''https://h/x''" accept_any]
  by (simp add: segs_a_b segs_a_c blend_a_b_a_c segs_shop segs_blog blend_shop_blog)

lemma segs_a_root: "path_segs ipok ''https://a/'' = Inr []"
  by code_simp

lemma segs_b_root: "path_segs ipok ''https://b/'' = Inr []"
  by code_simp

lemma blend_empty: "blend [] [] = 40"
  by code_simp

text \<open>
  Claim C3 as stated fails: it allows no special case beyond the two on the texts, yet for
  two distinct URLs with no path segment the code returns 0 where the blend is 40 (the
  suffix containment and the ratio of two empty texts are both 1).
\<close>

theorem path_similarity_empty_paths:
  "path_segs accept_any ''https://a/'' = Inr [] \<and> path_segs accept_any ''https://b/'' = Inr []
   \<and> blend [] [] = 40
   \<and> path_similarity accept_any ''https://a/'' ''https://b/'' = Inr 0"
  by (simp add: segs_a_root segs_b_root blend_empty path_similarity_def)

section \<open>Normalised path segments\<close>

text \<open>
  The four shapes of a volatile segment as the specification words them: purely numeric,
  a UUID (five runs of 8, 4, 4, 4 and 12 hexadecimal digits joined by hyphens), a run of
  at least 8 hexadecimal digits, and a date (four digits, two digits and optionally two
  more, each pair optionally preceded by a hyphen or a slash).
\<close>

definition purely_numeric :: "string \<Rightarrow> bool" where
  "purely_numeric s \<longleftrightarrow> s \<noteq> [] \<and> (\<forall>c \<in> set s. is_digit c)"

definition hex_run :: "nat \<Rightarrow> string \<Rightarrow> bool" where
  "hex_run n s \<longleftrightarrow> length s = n \<and> (\<forall>c \<in> set s. is_hex c)"

definition digit_run :: "nat \<Rightarrow> string \<Rightarrow> bool" where
  "digit_run n s \<longleftrightarrow> length s = n \<and> (\<forall>c \<in> set s. is_digit c)"

definition uuid_shaped :: "string \<Rightarrow> bool" where
  "uuid_shaped s \<longleftrightarrow>
     (\<exists>a b c d e. s = a @ ''-'' @ b @ ''-'' @ c @ ''-'' @ d @ ''-'' @ e
        \<and> hex_run 8 a \<and> hex_run 4 b \<and> hex_run 4 c \<and> hex_run 4 d \<and> hex_run 12 e)"

definition long_hex :: "string \<Rightarrow> bool" where
  "long_hex s \<longleftrightarrow> 8 \<le> length s \<and> (\<forall>c \<in> set s. is_hex c)"

definition date_sep :: "string \<Rightarrow> bool" where
  "date_sep t \<longleftrightarrow> t = [] \<or> t = ''-'' \<or> t = ''/''"

definition date_shaped :: "string \<Rightarrow> bool" where
  "date_shaped s \<longleftrightarrow>
     (\<exists>y p m. digit_run 4 y \<and> date_sep p \<and> digit_run 2 m
        \<and> (s = y @ p @ m \<or> (\<exists>q d. date_sep q \<and> digit_run 2 d \<and> s = y @ p @ m @ q @ d)))"

lemma exactly_run:
  "length a = n \<Longrightarrow> \<forall>c \<in> set a. P c \<Longrightarrow> exactly n P (a @ rest) = Some rest"
  by (simp add: exactly_def list_all_iff)

lemma exactly_run_all:
  "length a = n \<Longrightarrow> \<forall>c \<in> set a. P c \<Longrightarrow> exactly n P a = Some []"
  by (simp add: exactly_def list_all_iff)

lemma NUM_iff: "NUM s \<longleftrightarrow> purely_numeric s"
  by (simp add: NUM_def purely_numeric_def list_all_iff)

lemma HEX_iff: "HEX s \<longleftrightarrow> long_hex s"
  by (simp add: HEX_def long_hex_def list_all_iff)

lemma UUID_if: "uuid_shaped s \<Longrightarrow> UUID s"
  unfolding uuid_shaped_def hex_run_def UUID_def
  by (auto simp: exactly_run exactly_run_all lit_def)

lemma opt_sep_digit:
  "date_sep p \<Longrightarrow> digit_run 2 m \<Longrightarrow> opt_sep (p @ m @ rest) = Some (m @ rest)"
proof -
  assume p: "date_sep p" and m: "digit_run 2 m"
  then obtain c cs where mc: "m = c # cs" and c: "is_digit c"
    by (cases m) (auto simp: digit_run_def)
  have "c \<noteq> CHR ''-''" "c \<noteq> CHR ''/''"
    using c by (auto simp: is_digit_def)
  then show ?thesis
    using p by (auto simp: date_sep_def opt_sep_def mc)
qed

lemma DATE_if: "date_shaped s \<Longrightarrow> DATE s"
  unfolding date_shaped_def DATE_def
proof (elim exE conjE disjE)
  fix y p m
  assume y: "digit_run 4 y" and p: "date_sep p" and m: "digit_run 2 m" and s: "s = y @ p @ m"
  have "exactly 4 is_digit s = Some (p @ m)"
    using y by (simp add: s digit_run_def exactly_run)
  moreover have "opt_sep (p @ m) = Some m"
    using opt_sep_digit [OF p m, of "[]"] by simp
  moreover have "exactly 2 is_digit m = Some []"
    using m exactly_run [of m 2 is_digit "[]"] by (simp add: digit_run_def)
  ultimately show "case Option.bind (Option.bind (exactly 4 is_digit s) opt_sep) (exactly 2 is_digit) of
      None \<Rightarrow> False
    | Some rest \<Rightarrow> rest = [] \<or> Option.bind (opt_sep rest) (exactly 2 is_digit) = Some []"
    by simp
next
  fix y p m q d
  assume y: "digit_run 4 y" and p: "date_sep p" and m: "digit_run 2 m"
    and q: "date_sep q" and d: "digit_run 2 d" and s: "s = y @ p @ m @ q @ d"
  have "exactly 4 is_digit s = Some (p @ m @ q @ d)"
    using y by (simp add: s digit_run_def exactly_run)
  moreover have "opt_sep (p @ m @ q @ d) = Some (m @ q @ d)"
    using opt_sep_digit [OF p m] by simp
  moreover have "exactly 2 is_digit (m @ q @ d) = Some (q @ d)"
    using m by (simp add: digit_run_def exactly_run)
  moreover have "opt_sep (q @ d) = Some d"
    using opt_sep_digit [OF q d, of "[]"] by simp
  moreover have "exactly 2 is_digit d = Some []"
    using d exactly_run [of d 2 is_digit "[]"] by (simp add: digit_run_def)
  ultimately show "case Option.bind (Option.bind (exactly 4 is_digit s) opt_sep) (exactly 2 is_digit) of
      None \<Rightarrow> False
    | Some rest \<Rightarrow> rest = [] \<or> Option.bind (opt_sep rest) (exactly 2 is_digit) = Some []"
    by simp
qed

lemma norm_seg_id:
  assumes "purely_numeric (py_strip seg) \<or> uuid_shaped (py_strip seg)
      \<or> long_hex (py_strip seg) \<or> date_shaped (py_strip seg)"
  shows "norm_seg seg = ''{id}''"
proof -
  have ne: "py_strip seg \<noteq> []"
    using assms by (auto simp: purely_numeric_def uuid_shaped_def long_hex_def date_shaped_def
        digit_run_def)
  have "NUM (py_strip seg) \<or> UUID (py_strip seg) \<or> HEX (py_strip seg) \<or> DATE (py_strip seg)"
    using assms NUM_iff [of "py_strip seg"] HEX_iff [of "py_strip seg"]
      UUID_if [of "py_strip seg"] DATE_if [of "py_strip seg"] by blast
  with ne show ?thesis
    by (simp add: norm_seg_def Let_def)
qed

lemma path_segs_in_order:
  assumes "urlparse ipok u = Inr p"
  shows "path_segs ipok u
    = Inr (filter (\<lambda>s. s \<noteq> []) (map norm_seg
             (split_on CHR ''/'' (if path p \<noteq> [] then path p else ''/''))))"
  using assms by (simp add: path_segs_def filter_map comp_def)

lemma segs_123: "path_segs ipok ''https://h/user/123/edit'' = Inr [''user'', ''{id}'', ''edit'']"
  by code_simp

lemma segs_999: "path_segs ipok ''https://h/user/999/edit'' = Inr [''user'', ''{id}'', ''edit'']"
  by code_simp

text \<open>
  Claim C8: a segment whose stripped text is purely numeric, a UUID, a run of at least 8
  hexadecimal digits or date-shaped is normalised to \<open>{id}\<close>; the segments of a URL are
  the normalised pieces of its path between slashes, in order, without the empty ones;
  and the segments of \<open>https://h/user/123/edit\<close> and of \<open>https://h/user/999/edit\<close> are both
  \<open>user\<close>, \<open>{id}\<close>, \<open>edit\<close>.
\<close>

theorem path_segs_replaces_ids:
  "(purely_numeric (py_strip seg) \<or> uuid_shaped (py_strip seg)
      \<or> long_hex (py_strip seg) \<or> date_shaped (py_strip seg) \<longrightarrow> norm_seg seg = ''{id}'')
   \<and> (urlparse ipok u = Inr p \<longrightarrow>
        path_segs ipok u
          = Inr (filter (\<lambda>s. s \<noteq> []) (map norm_seg
                   (split_on CHR ''/'' (if path p \<noteq> [] then path p else ''/'')))))
   \<and> path_segs ipok ''https://h/user/123/edit'' = Inr [''user'', ''{id}'', ''edit'']
   \<and> path_segs ipok ''https://h/user/999/edit'' = Inr [''user'', ''{id}'', ''edit'']"
  using norm_seg_id [of seg] path_segs_in_order [of ipok u p] segs_123 [of ipok] segs_999 [of ipok]
  by simp


lemma numeric_123: "purely_numeric (py_strip ''123'')"
  by code_simp

lemma urlparse_123:
  "urlparse ipok ''https://h/user/123/edit''
     = Inr \<lparr>scheme = ''https'', netloc = ''h'', path = ''/user/123/edit'', params = [],
            query = [], fragment = []\<rparr>"
  by code_simp

theorem path_segs_replaces_ids_witness:
  "purely_numeric (py_strip ''123'') \<and> norm_seg ''123'' = ''{id}''
   \<and> urlparse accept_any ''https://h/user/123/edit''
       = Inr \<lparr>scheme = ''https'', netloc = ''h'', path = ''/user/123/edit'', params = [],
              query = [], fragment = []\<rparr>
   \<and> path_segs accept_any ''https://h/user/123/edit'' = Inr [''user'', ''{id}'', ''edit'']
   \<and> path_segs accept_any ''https://h/user/999/edit'' = Inr [''user'', ''{id}'', ''edit'']"
proof -
  note t = path_segs_replaces_ids [of "''123''" accept_any "''https://h/user/123/edit''"
      "\<lparr>scheme = ''https'', netloc = ''h'', path = ''/user/123/edit'', params = [],
              query = [], fragment = []\<rparr>"]
  have "norm_seg ''123'' = ''{id}''"
    using t numeric_123 by blast
  moreover have "path_segs accept_any ''https://h/user/123/edit'' = Inr [''user'', ''{id}'', ''edit'']"
    using t by blast
  moreover have "path_segs accept_any ''https://h/user/999/edit'' = Inr [''user'', ''{id}'', ''edit'']"
    using t by blast
  ultimately show ?thesis
    using numeric_123 urlparse_123 [of accept_any] by blast
qed

section \<open>The pool: duplicates and failures\<close>

text \<open>
  What the exchange of one response name contributes to a host key (nothing when it
  raises or is skipped), and what is discovered for a host key over a list of names, in
  the order of the scan. The first occurrences of a list are its elements at the
  positions where the element has not occurred before, in the order of the list.
\<close>

definition contribution :: "parts \<Rightarrow> (string \<Rightarrow> bool) \<Rightarrow> zipfile \<Rightarrow> string \<Rightarrow> string \<Rightarrow> candidate list" where
  "contribution ps ipok zf h sname =
     (case exchange ps ipok zf sname of
        Inl e \<Rightarrow> []
      | Inr None \<Rightarrow> []
      | Inr (Some (key, cands)) \<Rightarrow> if key = h then cands else [])"

definition discovered :: "parts \<Rightarrow> (string \<Rightarrow> bool) \<Rightarrow> zipfile \<Rightarrow> string list \<Rightarrow> string \<Rightarrow> candidate list" where
  "discovered ps ipok zf names h = concat (map (contribution ps ipok zf h) names)"

definition first_occurrences :: "'a list \<Rightarrow> 'a list" where
  "first_occurrences xs =
     map (\<lambda>i. xs ! i) (filter (\<lambda>i. xs ! i \<notin> set (take i xs)) [0..<length xs])"

lemma and_then_Inr:
  "and_then m f = Inr y \<longleftrightarrow> (\<exists>x. m = Inr x \<and> f x = Inr y)"
  by (cases m) (simp_all add: and_then_def)

lemma mine_nonempty:
  "mine ps ipok rh rb target hdrs = Inr (Some (key, cands)) \<Longrightarrow> cands \<noteq> []"
  by (auto simp: mine_def Let_def and_then_Inr split: if_splits)

lemma paired_nonempty:
  "paired ps ipok zf rh rb mnum = Inr (Some (key, cands)) \<Longrightarrow> cands \<noteq> []"
  by (auto simp: paired_def and_then_Inr split: option.splits dest: mine_nonempty)

lemma exchange_nonempty:
  "exchange ps ipok zf sname = Inr (Some (key, cands)) \<Longrightarrow> cands \<noteq> []"
  by (auto simp: exchange_def and_then_Inr split: if_splits option.splits dest: paired_nonempty)

lemma uniq_loop_firsts:
  "snd (uniq_loop xs (seen, acc))
     = acc @ map (\<lambda>i. xs ! i) (filter (\<lambda>i. xs ! i \<notin> seen \<union> set (take i xs)) [0..<length xs])"
proof (induction xs arbitrary: seen acc)
  case Nil
  then show ?case by simp
next
  case (Cons x xs)
  have upt: "[0..<length (x # xs)] = 0 # map Suc [0..<length xs]"
    by (simp add: upt_conv_Cons map_Suc_upt del: upt_Suc)
  show ?case
    by (simp only: upt)
      (auto simp: Cons.IH filter_map comp_def insert_absorb conj_ac
        intro!: arg_cong [where f = "map ((!) xs)"] filter_cong)
qed

lemma dedup_first_occurrences: "dedup xs = first_occurrences xs"
  by (simp add: dedup_def first_occurrences_def uniq_loop_firsts)

lemma uniq_loop_distinct:
  "distinct acc \<Longrightarrow> set acc \<subseteq> seen \<Longrightarrow> distinct (snd (uniq_loop xs (seen, acc)))"
proof (induction xs arbitrary: seen acc)
  case Nil
  then show ?case by simp
next
  case (Cons x xs)
  show ?case
  proof (cases "x \<in> seen")
    case True
    with Cons show ?thesis by simp
  next
    case False
    have "distinct (snd (uniq_loop xs (insert x seen, acc @ [x])))"
      using Cons.prems False by (intro Cons.IH) auto
    with False show ?thesis by simp
  qed
qed


lemma distinct_dedup: "distinct (dedup xs)"
  by (simp add: dedup_def uniq_loop_distinct)


lemma scan_pool:
  "scan ps ipok zf progress progress_every total_n i names pool = Inr pool' \<Longrightarrow>
   pool' h = (if discovered ps ipok zf names h = [] then pool h
              else Some ((case pool h of None \<Rightarrow> [] | Some cs \<Rightarrow> cs) @ discovered ps ipok zf names h))"
proof (induction names arbitrary: i pool)
  case Nil
  then show ?case by (simp add: discovered_def)
next
  case (Cons sname names)
  define mid where "mid = (case exchange ps ipok zf sname of
                     Inl e \<Rightarrow> pool
                   | Inr None \<Rightarrow> pool
                   | Inr (Some (key, cands)) \<Rightarrow> extend_pool pool key cands)"
  from Cons.prems have rest: "scan ps ipok zf progress progress_every total_n (i + 1) names mid = Inr pool'"
    by (auto simp: mid_def Let_def split: option.splits)
  have mid: "mid h = (if contribution ps ipok zf h sname = [] then pool h
       else Some ((case pool h of None \<Rightarrow> [] | Some cs \<Rightarrow> cs) @ contribution ps ipok zf h sname))"
    by (auto simp: mid_def contribution_def extend_pool_def
        split: sum.splits option.splits dest: exchange_nonempty)
  show ?case
    unfolding Cons.IH [OF rest]
    by (auto simp: mid discovered_def split: option.splits)
qed




lemma build_pool:
  assumes "build_candidate_pool_from_saz ps ipok zf progress progress_every = Inr pool"
  shows "pool h = (if discovered ps ipok zf (response_names zf) h = [] then None
                   else Some (dedup (discovered ps ipok zf (response_names zf) h)))"
proof -
  from assms obtain raw where
    raw: "scan ps ipok zf progress progress_every (length (response_names zf)) 1
            (response_names zf) Map.empty = Inr raw"
    and pool: "pool = (\<lambda>h. map_option dedup (raw h))"
    by (auto simp: build_candidate_pool_from_saz_def Let_def split: sum.splits)
  show ?thesis
    by (simp add: pool scan_pool [OF raw])
qed



text \<open>
  Claim C5: in the pool that \<^verbatim>\<open>build_candidate_pool_from_saz\<close> returns, the sequence of a
  host key holds no candidate twice, and it is the sequence of the first occurrences of
  the candidates discovered for that host key, in the order of discovery.
\<close>

theorem pool_entries_are_distinct:
  "build_candidate_pool_from_saz ps ipok zf progress progress_every = Inr pool \<Longrightarrow>
   pool h = Some cs \<Longrightarrow>
   distinct cs \<and> cs = first_occurrences (discovered ps ipok zf (response_names zf) h)"
  using build_pool [of ps ipok zf progress progress_every pool h]
  by (auto simp: distinct_dedup dedup_first_occurrences [symmetric] split: if_splits)


text \<open>
  A sample archive of three exchanges: the response of the second one cannot be read.
  The sample parts take every response for an HTML page whose body is its text, take the
  bytes of a request for the name of its host, and find on a page the same link twice.
\<close>

definition sample_zf :: zipfile where
  "sample_zf = \<lparr>
     namelist = [''raw/1_s.txt'', ''raw/1_c.txt'', ''raw/2_s.txt'', ''raw/2_c.txt'',
                 ''raw/3_s.txt'', ''raw/0003_c.txt''],
     read = (\<lambda>n. if n = ''raw/2_s.txt'' then Inl (Exception ''BadZipFile'')
                  else if suffix ''_c.txt'' n then Inr ''ex.com:443'' else Inr ''Home'')\<rparr>"

definition sample_parts :: parts where
  "sample_parts = \<lparr>
     parse_response_bytes = (\<lambda>data. Inr ([''Content-Type'' \<mapsto> ''text/html; charset=utf-8''], data)),
     parse_request_bytes = (\<lambda>data. Inr (''GET'', ''/'', [''Host'' \<mapsto> data], [])),
     decode_body = (\<lambda>body hdrs. Inr body),
     extract_menu_candidates_from_html = (\<lambda>html url. Inr [(html, url), (html, url)])\<rparr>"

definition no_errors :: "nat \<Rightarrow> nat \<Rightarrow> error option" where
  "no_errors i n = None"

lemma sample_names: "response_names sample_zf = [''raw/1_s.txt'', ''raw/2_s.txt'', ''raw/3_s.txt'']"
  by code_simp

lemma sample_exchange_1:
  "exchange sample_parts accept_any sample_zf ''raw/1_s.txt''
     = Inr (Some (''ex.com'', [(''Home'', ''https://ex.com:443/''), (''Home'', ''https://ex.com:443/'')]))"
  by code_simp

lemma sample_exchange_2:
  "exchange sample_parts accept_any sample_zf ''raw/2_s.txt'' = Inl (Exception ''BadZipFile'')"
  by code_simp

lemma sample_exchange_3:
  "exchange sample_parts accept_any sample_zf ''raw/3_s.txt''
     = Inr (Some (''ex.com'', [(''Home'', ''https://ex.com:443/''), (''Home'', ''https://ex.com:443/'')]))"
  by code_simp

lemma sample_discovered:
  "discovered sample_parts accept_any sample_zf (response_names sample_zf) ''ex.com''
     = [(''Home'', ''https://ex.com:443/''), (''Home'', ''https://ex.com:443/''),
        (''Home'', ''https://ex.com:443/''), (''Home'', ''https://ex.com:443/'')]"
  by (simp add: discovered_def contribution_def sample_names sample_exchange_1 sample_exchange_2
      sample_exchange_3)

lemma sample_quiet: "after_item (Some no_errors) 200 i n = None"
  by (simp add: after_item_def no_errors_def)

lemma sample_scan:
  "scan sample_parts accept_any sample_zf (Some no_errors) 200
       (length (response_names sample_zf)) 1 (response_names sample_zf) Map.empty
     = Inr [''ex.com'' \<mapsto> [(''Home'', ''https://ex.com:443/''), (''Home'', ''https://ex.com:443/''),
        (''Home'', ''https://ex.com:443/''), (''Home'', ''https://ex.com:443/'')]]"
  unfolding sample_names
  by (simp add: sample_exchange_1 sample_exchange_2 sample_exchange_3 sample_quiet extend_pool_def)

lemma sample_dedup:
  "dedup [(''Home'', ''https://ex.com:443/''), (''Home'', ''https://ex.com:443/''),
        (''Home'', ''https://ex.com:443/''), (''Home'', ''https://ex.com:443/'')]
     = [(''Home'', ''https://ex.com:443/'')]"
  by (simp add: dedup_def)

lemma sample_build:
  "build_candidate_pool_from_saz sample_parts accept_any sample_zf (Some no_errors) 200
     = Inr [''ex.com'' \<mapsto> [(''Home'', ''https://ex.com:443/'')]]"
  by (simp only: build_candidate_pool_from_saz_def Let_def sample_scan)
    (auto simp: fun_eq_iff sample_dedup)

theorem pool_entries_are_distinct_witness:
  "build_candidate_pool_from_saz sample_parts accept_any sample_zf (Some no_errors) 200
     = Inr [''ex.com'' \<mapsto> [(''Home'', ''https://ex.com:443/'')]]
   \<and> distinct [(''Home'', ''https://ex.com:443/'')]
   \<and> [(''Home'', ''https://ex.com:443/'')]
       = first_occurrences [(''Home'', ''https://ex.com:443/''), (''Home'', ''https://ex.com:443/''),
        (''Home'', ''https://ex.com:443/''), (''Home'', ''https://ex.com:443/'')]"
  using pool_entries_are_distinct [OF sample_build, of "''ex.com''" "[(''Home'', ''https://ex.com:443/'')]"]
  by (simp add: sample_build sample_discovered)













section \<open>The standard library: regular expressions\<close>

text \<open>
  The patterns of the module use literal characters, character classes, repetition of a
  class (greedy or lazy), optional pieces, alternatives, groups, one back-reference, the
  word boundary and the end anchor. \<open>rx_match\<close> is the backtracking matcher of \<^verbatim>\<open>re\<close> on
  them: it tries the alternatives in order, a greedy repetition from the longest run
  down, a lazy one from the shortest up, and gives the first way that lets the rest of
  the pattern (the continuation) match. A state is the character before the position,
  the text from the position on, and the groups matched so far.
\<close>

datatype rx =
    Cls "char \<Rightarrow> bool"
  | Eps
  | Seq rx rx
  | Alt rx rx
  | Opt rx
  | Rep "char \<Rightarrow> bool" nat bool
  | Grp nat rx
  | BackI nat
  | WordB
  | Eos

type_synonym caps = "nat \<rightharpoonup> string"

type_synonym mstate = "char option \<times> string \<times> caps"

definition is_word :: "char \<Rightarrow> bool" where
  "is_word c \<longleftrightarrow>
     (let n = (of_char c :: nat)
      in (48 \<le> n \<and> n \<le> 57) \<or> (65 \<le> n \<and> n \<le> 90) \<or> n = 95 \<or> (97 \<le> n \<and> n \<le> 122)
         \<or> n \<in> {170, 178, 179, 181, 185, 186, 188, 189, 190}
         \<or> (192 \<le> n \<and> n \<noteq> 215 \<and> n \<noteq> 247))"

fun rep_greedy :: "(char \<Rightarrow> bool) \<Rightarrow> nat \<Rightarrow> mstate \<Rightarrow> (mstate \<Rightarrow> 'r option) \<Rightarrow> 'r option" where
  "rep_greedy P n (prev, [], g) k = (if n = 0 then k (prev, [], g) else None)"
| "rep_greedy P n (prev, c # cs, g) k =
     (if P c
      then (case rep_greedy P (n - 1) (Some c, cs, g) k of
              Some r \<Rightarrow> Some r
            | None \<Rightarrow> if n = 0 then k (prev, c # cs, g) else None)
      else if n = 0 then k (prev, c # cs, g) else None)"

fun rep_lazy :: "(char \<Rightarrow> bool) \<Rightarrow> nat \<Rightarrow> mstate \<Rightarrow> (mstate \<Rightarrow> 'r option) \<Rightarrow> 'r option" where
  "rep_lazy P n (prev, [], g) k = (if n = 0 then k (prev, [], g) else None)"
| "rep_lazy P n (prev, c # cs, g) k =
     (if n = 0
      then (case k (prev, c # cs, g) of
              Some r \<Rightarrow> Some r
            | None \<Rightarrow> if P c then rep_lazy P 0 (Some c, cs, g) k else None)
      else if P c then rep_lazy P (n - 1) (Some c, cs, g) k else None)"

fun rx_match :: "rx \<Rightarrow> mstate \<Rightarrow> (mstate \<Rightarrow> 'r option) \<Rightarrow> 'r option" where
  "rx_match (Cls P) (prev, rest, g) k =
     (case rest of [] \<Rightarrow> None | c # cs \<Rightarrow> if P c then k (Some c, cs, g) else None)"
| "rx_match Eps st k = k st"
| "rx_match (Seq a b) st k = rx_match a st (\<lambda>st'. rx_match b st' k)"
| "rx_match (Alt a b) st k =
     (case rx_match a st k of Some r \<Rightarrow> Some r | None \<Rightarrow> rx_match b st k)"
| "rx_match (Opt a) st k =
     (case rx_match a st k of Some r \<Rightarrow> Some r | None \<Rightarrow> k st)"
| "rx_match (Rep P n greedy) st k =
     (if greedy then rep_greedy P n st k else rep_lazy P n st k)"
| "rx_match (Grp i a) (prev, rest, g) k =
     rx_match a (prev, rest, g)
       (\<lambda>(prev', rest', g'). k (prev', rest', g'(i \<mapsto> take (length rest - length rest') rest)))"
| "rx_match (BackI i) (prev, rest, g) k =
     (case g i of
        None \<Rightarrow> None
      | Some t \<Rightarrow>
          if length t \<le> length rest \<and> py_lower (take (length t) rest) = py_lower t
          then k (if t = [] then prev else Some (last (take (length t) rest)),
                  drop (length t) rest, g)
          else None)"
| "rx_match WordB (prev, rest, g) k =
     (if (case prev of None \<Rightarrow> False | Some c \<Rightarrow> is_word c)
         \<noteq> (case rest of [] \<Rightarrow> False | c # cs \<Rightarrow> is_word c)
      then k (prev, rest, g) else None)"
| "rx_match Eos (prev, rest, g) k =
     (if rest = [] \<or> rest = [CHR 0x0A] then k (prev, rest, g) else None)"

text \<open>A match: where it starts, where it ends, and its groups.\<close>

record rmatch =
  m_start :: nat
  m_end :: nat
  m_groups :: caps

definition match_at :: "rx \<Rightarrow> char option \<Rightarrow> string \<Rightarrow> nat \<Rightarrow> rmatch option" where
  "match_at r prev rest pos =
     rx_match r (prev, rest, Map.empty)
       (\<lambda>(prev', rest', g). Some \<lparr>m_start = pos, m_end = pos + (length rest - length rest'),
                                  m_groups = g\<rparr>)"

fun search_from :: "rx \<Rightarrow> char option \<Rightarrow> string \<Rightarrow> nat \<Rightarrow> rmatch option" where
  "search_from r prev [] pos = match_at r prev [] pos"
| "search_from r prev (c # cs) pos =
     (case match_at r prev (c # cs) pos of
        Some m \<Rightarrow> Some m
      | None \<Rightarrow> search_from r (Some c) cs (pos + 1))"

definition re_search :: "rx \<Rightarrow> string \<Rightarrow> rmatch option" where
  "re_search r s = search_from r None s 0"

text \<open>
  \<^verbatim>\<open>re.finditer\<close>: the matches from left to right, each search starting where the match
  before it ended (one character further after an empty match). \<open>skip\<close> counts the
  characters still inside the last match.
\<close>

fun finditer_from :: "rx \<Rightarrow> char option \<Rightarrow> string \<Rightarrow> nat \<Rightarrow> nat \<Rightarrow> rmatch list" where
  "finditer_from r prev [] pos skip =
     (if skip = 0 then (case match_at r prev [] pos of None \<Rightarrow> [] | Some m \<Rightarrow> [m]) else [])"
| "finditer_from r prev (c # cs) pos skip =
     (if skip = 0
      then (case match_at r prev (c # cs) pos of
              None \<Rightarrow> finditer_from r (Some c) cs (pos + 1) 0
            | Some m \<Rightarrow> m # finditer_from r (Some c) cs (pos + 1) (m_end m - pos - 1))
      else finditer_from r (Some c) cs (pos + 1) (skip - 1))"

definition re_finditer :: "rx \<Rightarrow> string \<Rightarrow> rmatch list" where
  "re_finditer r s = finditer_from r None s 0 0"

definition match_group :: "rmatch \<Rightarrow> nat \<Rightarrow> string" where
  "match_group m i = (case m_groups m i of None \<Rightarrow> [] | Some t \<Rightarrow> t)"

text \<open>Pieces of patterns: a text, a text without regard to case, and a sequence.\<close>

definition ci :: "char \<Rightarrow> rx" where
  "ci p = Cls (\<lambda>c. py_lower_char c = py_lower_char p)"

definition rx_seq :: "rx list \<Rightarrow> rx" where
  "rx_seq rs = foldr Seq rs Eps"

definition rx_lit :: "string \<Rightarrow> rx" where
  "rx_lit s = rx_seq (map (\<lambda>p. Cls (\<lambda>c. c = p)) s)"

definition rx_ci :: "string \<Rightarrow> rx" where
  "rx_ci s = rx_seq (map ci s)"

definition rx_alt :: "rx list \<Rightarrow> rx" where
  "rx_alt rs = foldr Alt (butlast rs) (last rs)"

definition quote :: "char \<Rightarrow> bool" where
  "quote c \<longleftrightarrow> c = CHR 0x22 \<or> c = CHR 0x27"

text \<open>
  \<^verbatim>\<open>re.sub\<close> with a constant replacement, for a pattern that matches no empty text, and
  \<^verbatim>\<open>re.findall\<close> for a pattern with one group.
\<close>

fun substitute :: "string \<Rightarrow> string \<Rightarrow> nat \<Rightarrow> rmatch list \<Rightarrow> string" where
  "substitute repl s pos [] = drop pos s"
| "substitute repl s pos (m # ms) =
     take (m_start m - pos) (drop pos s) @ repl @ substitute repl s (m_end m) ms"

definition re_sub :: "rx \<Rightarrow> string \<Rightarrow> string \<Rightarrow> string" where
  "re_sub r repl s = substitute repl s 0 (re_finditer r s)"

definition re_findall1 :: "rx \<Rightarrow> string \<Rightarrow> string list" where
  "re_findall1 r s = map (\<lambda>m. match_group m 1) (re_finditer r s)"

text \<open>\<^verbatim>\<open>s[max(0, a - w) : b + w]\<close>.\<close>

definition window :: "string \<Rightarrow> nat \<Rightarrow> nat \<Rightarrow> nat \<Rightarrow> string" where
  "window s a b w = take (b + w - (a - w)) (drop (a - w) s)"


section \<open>The standard library: \<^verbatim>\<open>urljoin\<close>\<close>

definition uses_relative :: "string list" where
  "uses_relative = ['''', ''ftp'', ''http'', ''gopher'', ''nntp'', ''imap'',
     ''wais'', ''file'', ''https'', ''shttp'', ''mms'',
     ''prospero'', ''rtsp'', ''rtsps'', ''rtspu'', ''sftp'',
     ''svn'', ''svn+ssh'', ''ws'', ''wss'']"

definition uses_netloc :: "string list" where
  "uses_netloc = ['''', ''ftp'', ''http'', ''gopher'', ''nntp'', ''telnet'',
     ''imap'', ''wais'', ''file'', ''mms'', ''https'', ''shttp'',
     ''snews'', ''prospero'', ''rtsp'', ''rtsps'', ''rtspu'', ''rsync'',
     ''svn'', ''svn+ssh'', ''sftp'', ''nfs'', ''git'', ''git+ssh'',
     ''ws'', ''wss'']"

definition urlunsplit :: "string \<Rightarrow> string \<Rightarrow> string \<Rightarrow> string \<Rightarrow> string \<Rightarrow> string" where
  "urlunsplit sch nl url qry frag =
     (let url1 = (if nl \<noteq> [] \<or> (sch \<noteq> [] \<and> sch \<in> set uses_netloc) \<or> take 2 url = ''//''
                  then ''//'' @ nl @ (if url \<noteq> [] \<and> take 1 url \<noteq> ''/'' then ''/'' @ url else url)
                  else url);
          url2 = (if sch \<noteq> [] then sch @ '':'' @ url1 else url1);
          url3 = (if qry \<noteq> [] then url2 @ ''?'' @ qry else url2)
      in if frag \<noteq> [] then url3 @ ''#'' @ frag else url3)"

definition urlunparse :: "parse_result \<Rightarrow> string" where
  "urlunparse r =
     urlunsplit (scheme r) (netloc r)
       (if params r \<noteq> [] then path r @ '';'' @ params r else path r) (query r) (fragment r)"

text \<open>The loop of \<^verbatim>\<open>urljoin\<close> over the segments, with the list of resolved segments.\<close>

fun resolve_dots :: "string list \<Rightarrow> string list \<Rightarrow> string list" where
  "resolve_dots [] resolved = resolved"
| "resolve_dots (seg # segs) resolved =
     (if seg = ''..'' then resolve_dots segs (butlast resolved)
      else if seg = ''.'' then resolve_dots segs resolved
      else resolve_dots segs (resolved @ [seg]))"

text \<open>\<^verbatim>\<open>segments[1:-1] = filter(None, segments[1:-1])\<close>.\<close>

definition drop_inner_empties :: "string list \<Rightarrow> string list" where
  "drop_inner_empties segs =
     (if length segs \<le> 1 then segs
      else hd segs # filter (\<lambda>x. x \<noteq> []) (butlast (tl segs)) @ [last segs])"

definition merge_paths :: "string \<Rightarrow> string \<Rightarrow> string" where
  "merge_paths bpath upath =
     (let base_parts0 = split_on CHR ''/'' bpath;
          base_parts = (if last base_parts0 \<noteq> [] then butlast base_parts0 else base_parts0);
          segments = (if take 1 upath = ''/'' then split_on CHR ''/'' upath
                      else drop_inner_empties (base_parts @ split_on CHR ''/'' upath));
          resolved0 = resolve_dots segments [];
          resolved = (if last segments \<in> {''.'', ''..''} then resolved0 @ [[]] else resolved0);
          joined = join ''/'' resolved
      in if joined \<noteq> [] then joined else ''/'')"

definition urljoin :: "(string \<Rightarrow> bool) \<Rightarrow> string \<Rightarrow> string \<Rightarrow> error + string" where
  "urljoin ipok base url =
     (if base = [] then Inr url
      else if url = [] then Inr base
      else
        (case urlparse_scheme ipok [] base of
           Inl e \<Rightarrow> Inl e
         | Inr b \<Rightarrow>
             (case urlparse_scheme ipok (scheme b) url of
                Inl e \<Rightarrow> Inl e
              | Inr u \<Rightarrow>
                  if scheme u \<noteq> scheme b \<or> scheme u \<notin> set uses_relative then Inr url
                  else if scheme u \<in> set uses_netloc \<and> netloc u \<noteq> [] then Inr (urlunparse u)
                  else
                    let nl = (if scheme u \<in> set uses_netloc then netloc b else netloc u)
                    in if path u = [] \<and> params u = []
                       then Inr (urlunparse (u\<lparr>netloc := nl, path := path b, params := params b,
                                 query := (if query u = [] then query b else query u)\<rparr>))
                       else Inr (urlunparse (u\<lparr>netloc := nl,
                                   path := merge_paths (path b) (path u)\<rparr>)))))"

section \<open>Resolving a link\<close>

text \<open>\<^verbatim>\<open>re.search(r'<base[^>]+href=["\']([^"\']+)["\']', html, re.I)\<close>.\<close>

definition P_base :: rx where
  "P_base = rx_seq [rx_ci ''<base'', Rep (\<lambda>c. c \<noteq> CHR ''>'') 1 True, rx_ci ''href='', Cls quote,
     Grp 1 (Rep (\<lambda>c. \<not> quote c) 1 True), Cls quote]"

definition resolve_candidate_url :: "(string \<Rightarrow> bool) \<Rightarrow> string \<Rightarrow> string \<Rightarrow> string \<Rightarrow> error + string" where
  "resolve_candidate_url ipok candidate current_url html =
     (if candidate = [] then Inr []
      else if prefix ''javascript:'' candidate \<or> prefix ''#'' candidate then Inr []
      else
        let base = (case re_search P_base html of
                      None \<Rightarrow> current_url
                    | Some m \<Rightarrow> py_strip (match_group m 1))
        in urljoin ipok base candidate)"


section \<open>The miner\<close>

text \<open>
  What the miner takes from the interpreter and its library beyond \<^verbatim>\<open>re\<close> and
  \<^verbatim>\<open>urllib.parse\<close> is a parameter: the events that \<^verbatim>\<open>HTMLParser.feed\<close> delivers for a
  document (up to the point where it raises, when it does), \<^verbatim>\<open>html.unescape\<close> on a text
  with an ampersand, and the order in which a \<^verbatim>\<open>set\<close> built from a list is iterated.
\<close>

datatype event = StartTag string "(string \<times> string option) list" | EndTag string | Data string

record runtime =
  feed :: "string \<Rightarrow> event list"
  unescape_entities :: "string \<Rightarrow> string"
  set_order :: "string list \<Rightarrow> string list"

definition unescape :: "runtime \<Rightarrow> string \<Rightarrow> string" where
  "unescape rt s = (if CHR ''&'' \<notin> set s then s else unescape_entities rt s)"

definition any_char :: "char \<Rightarrow> bool" where
  "any_char c \<longleftrightarrow> True"

definition sp0 :: rx where
  "sp0 = Rep py_isspace 0 True"

definition TAG_STRIP :: rx where
  "TAG_STRIP = rx_seq [rx_lit ''<'', Rep (\<lambda>c. c \<noteq> CHR ''>'') 1 True, rx_lit ''>'']"

definition WS :: rx where
  "WS = Rep py_isspace 1 True"

definition clean_text :: "runtime \<Rightarrow> string \<Rightarrow> string" where
  "clean_text rt html = unescape rt (py_strip (re_sub WS '' '' (re_sub TAG_STRIP [] html)))"

text \<open>\<^verbatim>\<open>_attr_get\<close>: the name goes into the pattern as it is.\<close>

definition P_attr :: "string \<Rightarrow> rx" where
  "P_attr name = rx_seq [rx_ci name, sp0, rx_lit ''='', sp0,
     Grp 1 (rx_alt [
       rx_seq [Cls (\<lambda>c. c = CHR 0x22), Rep any_char 0 False, Cls (\<lambda>c. c = CHR 0x22)],
       rx_seq [Cls (\<lambda>c. c = CHR 0x27), Rep any_char 0 False, Cls (\<lambda>c. c = CHR 0x27)],
       Rep (\<lambda>c. \<not> py_isspace c \<and> c \<noteq> CHR ''>'') 1 True])]"

definition attr_get :: "string \<Rightarrow> string \<Rightarrow> string" where
  "attr_get attr_html name =
     (case re_search (P_attr name) attr_html of
        None \<Rightarrow> []
      | Some m \<Rightarrow>
          let v = match_group m 1
          in py_strip (if v \<noteq> [] \<and> quote (hd v) \<and> last v = hd v then butlast (tl v) else v))"

text \<open>Running a step over a list of items: the first exception ends the loop.\<close>

fun collect :: "('a \<Rightarrow> error + 'b list) \<Rightarrow> 'a list \<Rightarrow> error + 'b list" where
  "collect f [] = Inr []"
| "collect f (x # xs) =
     (case f x of
        Inl e \<Rightarrow> Inl e
      | Inr ys \<Rightarrow> (case collect f xs of Inl e \<Rightarrow> Inl e | Inr zs \<Rightarrow> Inr (ys @ zs)))"

subsection \<open>Anchors\<close>

definition P_anchor :: rx where
  "P_anchor = rx_seq [rx_ci ''<a'', WordB, Grp 1 (Rep (\<lambda>c. c \<noteq> CHR ''>'') 1 True), rx_lit ''>'',
     Grp 2 (Rep any_char 0 False), rx_ci ''</a>'']"

text \<open>\<^verbatim>\<open>_clean_text(inner) or _attr_get(attrs, 'title') or _attr_get(attrs, 'aria-label')\<close>.\<close>

definition anchor_label :: "runtime \<Rightarrow> string \<Rightarrow> string \<Rightarrow> string" where
  "anchor_label rt attrs inner =
     (if clean_text rt inner \<noteq> [] then clean_text rt inner
      else if attr_get attrs ''title'' \<noteq> [] then attr_get attrs ''title''
      else attr_get attrs ''aria-label'')"

text \<open>
  A link resolved and paired with a label: \<open>emit\<close> under the test \<^verbatim>\<open>if url\<close> (the label has
  been tested before the link is resolved), \<open>emit_labelled\<close> under \<^verbatim>\<open>if url and label\<close>.
\<close>

definition emit :: "(string \<Rightarrow> bool) \<Rightarrow> string \<Rightarrow> string \<Rightarrow> string \<Rightarrow> string \<Rightarrow> error + candidate list" where
  "emit ipok label link current_url html =
     (case resolve_candidate_url ipok link current_url html of
        Inl e \<Rightarrow> Inl e
      | Inr url \<Rightarrow> if url \<noteq> [] then Inr [(label, url)] else Inr [])"

definition emit_labelled :: "(string \<Rightarrow> bool) \<Rightarrow> string \<Rightarrow> string \<Rightarrow> string \<Rightarrow> string
    \<Rightarrow> error + candidate list" where
  "emit_labelled ipok label link current_url html =
     (case resolve_candidate_url ipok link current_url html of
        Inl e \<Rightarrow> Inl e
      | Inr url \<Rightarrow> if url \<noteq> [] \<and> label \<noteq> [] then Inr [(label, url)] else Inr [])"

definition extract_anchor_candidates :: "runtime \<Rightarrow> (string \<Rightarrow> bool) \<Rightarrow> string \<Rightarrow> string
    \<Rightarrow> error + candidate list" where
  "extract_anchor_candidates rt ipok html current_url =
     collect (\<lambda>m.
        let attrs = match_group m 1; inner = match_group m 2;
            href = attr_get attrs ''href'';
            label = anchor_label rt attrs inner
        in if href \<noteq> [] \<and> label \<noteq> [] then emit ipok (py_strip label) href current_url html
           else Inr [])
       (re_finditer P_anchor html)"

subsection \<open>Functions called from \<^verbatim>\<open>onclick\<close>\<close>

definition name_start :: "char \<Rightarrow> bool" where
  "name_start c \<longleftrightarrow> c \<in> set ascii_alpha \<or> c = CHR ''_'' \<or> c = CHR ''$''"

definition name_char :: "char \<Rightarrow> bool" where
  "name_char c \<longleftrightarrow> is_word c \<or> c = CHR ''$''"

definition ONCLICK_FUNC_CALL :: rx where
  "ONCLICK_FUNC_CALL = rx_seq [rx_ci ''onclick'', sp0, rx_lit ''='', sp0, Cls quote, sp0,
     Grp 1 (Seq (Cls name_start) (Rep name_char 0 True)), sp0, rx_lit ''('',
     Rep (\<lambda>c. \<not> quote c) 0 False, rx_lit '')'', sp0, Cls quote]"

definition SCRIPT_BLOCKS :: rx where
  "SCRIPT_BLOCKS = rx_seq [rx_ci ''<script'', WordB, Rep (\<lambda>c. c \<noteq> CHR ''>'') 0 True, rx_lit ''>'',
     Grp 1 (Rep any_char 0 False), rx_ci ''</script>'']"

definition fn_tail :: "rx list" where
  "fn_tail = [sp0, rx_lit ''('', Rep (\<lambda>c. c \<noteq> CHR '')'') 0 True, rx_lit '')'', sp0]"

definition fn_body :: "rx list" where
  "fn_body = [rx_lit ''{'', Grp 1 (Rep any_char 0 False), rx_lit ''}'']"

definition pat1 :: "string \<Rightarrow> rx" where
  "pat1 name = rx_seq ([rx_ci ''function'', Rep py_isspace 1 True, rx_ci name] @ fn_tail @ fn_body)"

definition pat2 :: "string \<Rightarrow> rx" where
  "pat2 name = rx_seq ([rx_ci name, sp0, rx_lit ''='', sp0, rx_ci ''function''] @ fn_tail @ fn_body)"

definition pat3 :: "string \<Rightarrow> rx" where
  "pat3 name = rx_seq ([rx_alt [rx_ci ''const'', rx_ci ''let'', rx_ci ''var''], Rep py_isspace 1 True,
     rx_ci name, sp0, rx_lit ''='', sp0, rx_lit ''('', Rep (\<lambda>c. c \<noteq> CHR '')'') 0 True, rx_lit '')'',
     sp0, rx_lit ''=>'', sp0] @ fn_body)"

text \<open>The first of the three patterns that matches in a block, if any.\<close>

definition body_in_block :: "string \<Rightarrow> string \<Rightarrow> string option" where
  "body_in_block name blk =
     (case re_search (pat1 name) blk of
        Some mm \<Rightarrow> Some (match_group mm 1)
      | None \<Rightarrow>
          (case re_search (pat2 name) blk of
             Some mm \<Rightarrow> Some (match_group mm 1)
           | None \<Rightarrow>
               (case re_search (pat3 name) blk of
                  Some mm \<Rightarrow> Some (match_group mm 1)
                | None \<Rightarrow> None)))"

fun first_body :: "string \<Rightarrow> string list \<Rightarrow> string" where
  "first_body name [] = []"
| "first_body name (blk # blks) =
     (case body_in_block name blk of Some body \<Rightarrow> body | None \<Rightarrow> first_body name blks)"

definition find_function_body :: "string \<Rightarrow> string \<Rightarrow> string" where
  "find_function_body html name =
     (if html = [] \<or> name = [] then []
      else first_body name (re_findall1 SCRIPT_BLOCKS html))"

definition quoted_url :: "rx list" where
  "quoted_url = [Cls quote, Grp 1 (Rep (\<lambda>c. \<not> quote c) 1 True), Cls quote]"

definition JS_URL :: "rx list" where
  "JS_URL = [
     rx_seq ([rx_ci ''location.'', rx_alt [rx_ci ''href'', rx_ci ''assign'', rx_ci ''replace''],
              sp0, rx_lit ''='', sp0] @ quoted_url),
     rx_seq ([rx_ci ''document.location'', sp0, rx_lit ''='', sp0] @ quoted_url),
     rx_seq ([rx_ci ''window.open'', sp0, rx_lit ''('', sp0] @ quoted_url),
     rx_seq ([rx_ci ''.action'', sp0, rx_lit ''='', sp0] @ quoted_url
             @ [sp0, rx_lit '';'', Rep (\<lambda>c. c \<noteq> CHR '';'') 0 False, rx_ci ''.submit'', sp0,
                rx_lit ''(''])]"

fun first_group :: "rx list \<Rightarrow> string \<Rightarrow> string" where
  "first_group [] s = []"
| "first_group (r # rs) s =
     (case re_search r s of Some m \<Rightarrow> match_group m 1 | None \<Rightarrow> first_group rs s)"

definition extract_url_from_js_body :: "string \<Rightarrow> string" where
  "extract_url_from_js_body body = (if body = [] then [] else first_group JS_URL body)"

text \<open>
  \<^verbatim>\<open>fn_url[name] = ...\<close> on a dictionary kept as the list of its items in the order of
  insertion: a key that is there keeps its place.
\<close>

fun dict_set :: "(string \<times> string) list \<Rightarrow> string \<Rightarrow> string \<Rightarrow> (string \<times> string) list" where
  "dict_set [] k v = [(k, v)]"
| "dict_set ((k', v') # d) k v = (if k' = k then (k, v) # d else (k', v') # dict_set d k v)"

fun fn_urls :: "(string \<Rightarrow> bool) \<Rightarrow> string \<Rightarrow> string \<Rightarrow> string list \<Rightarrow> (string \<times> string) list
    \<Rightarrow> error + (string \<times> string) list" where
  "fn_urls ipok html current_url [] fn_url = Inr fn_url"
| "fn_urls ipok html current_url (name # names) fn_url =
     (let url = extract_url_from_js_body (find_function_body html name)
      in if url \<noteq> []
         then (case resolve_candidate_url ipok url current_url html of
                 Inl e \<Rightarrow> Inl e
               | Inr absurl \<Rightarrow> fn_urls ipok html current_url names (dict_set fn_url name absurl))
         else fn_urls ipok html current_url names fn_url)"

text \<open>
  \<^verbatim>\<open>re.search(rf'\b{name}\s*\(', onclick)\<close>: the name goes into the pattern as it is, so
  a dollar sign in it is the end anchor.
\<close>

definition P_call :: "string \<Rightarrow> rx" where
  "P_call name = rx_seq [WordB,
     rx_seq (map (\<lambda>p. if p = CHR ''$'' then Eos else Cls (\<lambda>c. c = p)) name), sp0, rx_lit ''('']"

definition calls_of_anchor :: "runtime \<Rightarrow> (string \<times> string) list \<Rightarrow> rmatch \<Rightarrow> candidate list" where
  "calls_of_anchor rt fn_url m =
     (let attrs = match_group m 1; inner = match_group m 2;
          onclick = attr_get attrs ''onclick''
      in if onclick = [] then []
         else concat (map (\<lambda>(name, absurl).
                if absurl \<noteq> [] \<and> re_search (P_call name) onclick \<noteq> None
                   \<and> anchor_label rt attrs inner \<noteq> []
                then [(py_strip (anchor_label rt attrs inner), absurl)] else []) fn_url))"

definition extract_onclick_function_candidates :: "runtime \<Rightarrow> (string \<Rightarrow> bool) \<Rightarrow> string \<Rightarrow> string
    \<Rightarrow> error + candidate list" where
  "extract_onclick_function_candidates rt ipok html current_url =
     (if html = [] then Inr []
      else
        let func_names = set_order rt (re_findall1 ONCLICK_FUNC_CALL html)
        in if func_names = [] then Inr []
           else
             (case fn_urls ipok html current_url func_names [] of
                Inl e \<Rightarrow> Inl e
              | Inr fn_url \<Rightarrow>
                  if fn_url = [] then Inr []
                  else Inr (concat (map (calls_of_anchor rt fn_url) (re_finditer P_anchor html)))))"


subsection \<open>Clickable elements other than anchors\<close>

definition url_char :: "char \<Rightarrow> bool" where
  "url_char c \<longleftrightarrow> \<not> quote c \<and> \<not> py_isspace c"

definition URLVAL :: rx where
  "URLVAL = rx_alt [
     rx_seq [Opt (rx_seq [rx_ci ''http'', Opt (ci CHR ''s''), rx_lit '':'']), rx_lit ''//'',
             Rep url_char 1 True],
     rx_seq [rx_lit ''/'', Rep url_char 1 True],
     rx_seq [rx_lit ''./'', Rep url_char 1 True],
     rx_seq [rx_lit ''../'', Rep url_char 1 True],
     rx_seq [rx_lit ''?'', Rep url_char 1 True]]"

definition in_quotes :: "rx list" where
  "in_quotes = [Cls quote, Grp 1 URLVAL, Cls quote]"

definition onclick_head :: "rx list" where
  "onclick_head = [rx_ci ''onclick'', sp0, rx_lit ''='', sp0, Cls quote,
     Rep (\<lambda>c. \<not> quote c) 0 False, WordB]"

definition onclick_tail :: "rx list" where
  "onclick_tail = in_quotes @ [Rep (\<lambda>c. \<not> quote c) 0 False, Cls quote]"

definition ONCLICK_PATS :: "rx list" where
  "ONCLICK_PATS = [
     rx_seq (onclick_head
       @ [rx_ci ''location.'', rx_alt [rx_ci ''href'', rx_ci ''assign'', rx_ci ''replace''],
          sp0, rx_lit ''='', sp0] @ onclick_tail),
     rx_seq (onclick_head @ [rx_ci ''window.open'', sp0, rx_lit ''('', sp0] @ onclick_tail),
     rx_seq (onclick_head
       @ [rx_alt [rx_ci ''router.push'', rx_ci ''navigate'', rx_ci ''go''], sp0, rx_lit ''('', sp0]
       @ onclick_tail)]"

text \<open>\<^verbatim>\<open><([a-z0-9]+)[^>]*>(.*?)</\1>\<close>: the first element of a snippet that is closed.\<close>

definition tag_char :: "char \<Rightarrow> bool" where
  "tag_char c \<longleftrightarrow> c \<in> set ''abcdefghijklmnopqrstuvwxyzABCDEFGHIJKLMNOPQRSTUVWXYZ0123456789''"

definition P_element :: rx where
  "P_element = rx_seq [rx_lit ''<'', Grp 1 (Rep tag_char 1 True), Rep (\<lambda>c. c \<noteq> CHR ''>'') 0 True,
     rx_lit ''>'', Grp 2 (Rep any_char 0 False), rx_lit ''</'', BackI 1, rx_lit ''>'']"

definition P_data :: rx where
  "P_data = rx_seq ([rx_ci ''data-'', rx_alt [rx_ci ''url'', rx_ci ''route'', rx_ci ''href''],
     sp0, rx_lit ''='', sp0] @ in_quotes)"

definition P_form :: rx where
  "P_form = rx_seq ([rx_ci ''<form'', Rep (\<lambda>c. c \<noteq> CHR ''>'') 1 True, rx_ci ''action='',
     Cls quote, Grp 1 URLVAL, Cls quote, Rep (\<lambda>c. c \<noteq> CHR ''>'') 0 True, rx_lit ''>'',
     Grp 2 (Rep any_char 0 False), rx_ci ''</form>''])"

definition P_formaction :: rx where
  "P_formaction = rx_seq (rx_ci ''formaction='' # in_quotes)"

definition P_button :: rx where
  "P_button = rx_seq [rx_ci ''<button'', Rep (\<lambda>c. c \<noteq> CHR ''>'') 0 True, rx_lit ''>'',
     Grp 1 (Rep any_char 0 False), rx_ci ''</button>'']"

definition P_select :: rx where
  "P_select = rx_seq [rx_ci ''<select'', Rep (\<lambda>c. c \<noteq> CHR ''>'') 1 True, rx_ci ''onchange='',
     Cls quote, Rep (\<lambda>c. \<not> quote c) 0 True, rx_ci ''location.href'', sp0, rx_lit ''='', sp0,
     rx_ci ''this.value'', Rep (\<lambda>c. \<not> quote c) 0 True, Cls quote]"

definition P_select_block :: rx where
  "P_select_block = rx_seq [rx_ci ''<select'', Rep (\<lambda>c. c \<noteq> CHR ''>'') 0 True, rx_lit ''>'',
     Grp 1 (Rep any_char 0 False), rx_ci ''</select>'']"

definition P_option :: rx where
  "P_option = rx_seq [rx_ci ''<option'', Rep (\<lambda>c. c \<noteq> CHR ''>'') 1 True, rx_ci ''value='',
     Cls quote, Grp 1 URLVAL, Cls quote, Rep (\<lambda>c. c \<noteq> CHR ''>'') 0 True, rx_lit ''>'',
     Grp 2 (Rep any_char 0 False), rx_ci ''</option>'']"

text \<open>The label read in a window around a match: the text of an element found there.\<close>

definition window_label :: "runtime \<Rightarrow> rx \<Rightarrow> nat \<Rightarrow> string \<Rightarrow> nat \<Rightarrow> rmatch \<Rightarrow> string" where
  "window_label rt r i html w m =
     (case re_search r (window html (m_start m) (m_end m) w) of
        None \<Rightarrow> []
      | Some tag \<Rightarrow> take 80 (clean_text rt (match_group tag i)))"

definition onclick_candidates :: "runtime \<Rightarrow> (string \<Rightarrow> bool) \<Rightarrow> string \<Rightarrow> string \<Rightarrow> rx
    \<Rightarrow> error + candidate list" where
  "onclick_candidates rt ipok html current_url pat =
     collect (\<lambda>m. emit_labelled ipok (window_label rt P_element 2 html 200 m) (match_group m 1) current_url html)
       (re_finditer pat html)"

definition data_candidates :: "runtime \<Rightarrow> (string \<Rightarrow> bool) \<Rightarrow> string \<Rightarrow> string
    \<Rightarrow> error + candidate list" where
  "data_candidates rt ipok html current_url =
     collect (\<lambda>m. emit_labelled ipok (window_label rt P_element 2 html 150 m) (match_group m 1) current_url html)
       (re_finditer P_data html)"

definition form_candidates :: "runtime \<Rightarrow> (string \<Rightarrow> bool) \<Rightarrow> string \<Rightarrow> string
    \<Rightarrow> error + candidate list" where
  "form_candidates rt ipok html current_url =
     collect (\<lambda>m. emit_labelled ipok (take 80 (clean_text rt (match_group m 2))) (match_group m 1) current_url html)
       (re_finditer P_form html)"

definition formaction_candidates :: "runtime \<Rightarrow> (string \<Rightarrow> bool) \<Rightarrow> string \<Rightarrow> string
    \<Rightarrow> error + candidate list" where
  "formaction_candidates rt ipok html current_url =
     collect (\<lambda>m. emit_labelled ipok (window_label rt P_button 1 html 150 m) (match_group m 1) current_url html)
       (re_finditer P_formaction html)"

definition select_candidates :: "runtime \<Rightarrow> (string \<Rightarrow> bool) \<Rightarrow> string \<Rightarrow> string
    \<Rightarrow> error + candidate list" where
  "select_candidates rt ipok html current_url =
     collect (\<lambda>m.
        case re_search P_select_block (drop (m_start m) html) of
          None \<Rightarrow> Inr []
        | Some block \<Rightarrow>
            collect (\<lambda>opt. emit_labelled ipok (take 80 (clean_text rt (match_group opt 2))) (match_group opt 1)
                              current_url html)
              (re_finditer P_option (match_group block 1)))
       (re_finditer P_select html)"

text \<open>The strategies of \<^verbatim>\<open>_extract_non_a_candidates\<close>, in the order of the source.\<close>

definition non_a_strategies :: "runtime \<Rightarrow> (string \<Rightarrow> bool) \<Rightarrow> string \<Rightarrow> string
    \<Rightarrow> (error + candidate list) list" where
  "non_a_strategies rt ipok html current_url =
     map (onclick_candidates rt ipok html current_url) ONCLICK_PATS
     @ [data_candidates rt ipok html current_url,
        form_candidates rt ipok html current_url,
        formaction_candidates rt ipok html current_url,
        select_candidates rt ipok html current_url,
        extract_onclick_function_candidates rt ipok html current_url]"

definition extract_non_a_candidates :: "runtime \<Rightarrow> (string \<Rightarrow> bool) \<Rightarrow> string \<Rightarrow> string
    \<Rightarrow> error + candidate list" where
  "extract_non_a_candidates rt ipok html current_url =
     collect (\<lambda>r. r) (non_a_strategies rt ipok html current_url)"

subsection \<open>The menu tree\<close>

definition MENU_HINTS :: "string list" where
  "MENU_HINTS = [''menu'', ''nav'', ''gnb'', ''lnb'', ''snb'', ''submenu'', ''depth'', ''dropdown'',
     ''tab'', ''category'', ''side'', ''global'', ''primary'', ''secondary'']"

definition BREAD_HINTS :: "string list" where
  "BREAD_HINTS = [''breadcrumb'', ''breadcrumbs'', ''bread'', ''path'', ''location'', ''loc'']"

text \<open>\<^verbatim>\<open>_attrs_to_dict(attrs).get(k, '')\<close>: the last value given to the name, or the empty text.\<close>

definition attr_of :: "(string \<times> string option) list \<Rightarrow> string \<Rightarrow> string" where
  "attr_of attrs k =
     (case map_of (rev attrs) k of None \<Rightarrow> [] | Some None \<Rightarrow> [] | Some (Some v) \<Rightarrow> v)"

definition is_menu_ul :: "(string \<times> string option) list \<Rightarrow> bool" where
  "is_menu_ul attrs =
     (let hay = '' '' @ py_lower (attr_of attrs ''class'') @ '' '' @ py_lower (attr_of attrs ''id'')
                  @ '' ''
      in (\<exists>k \<in> set MENU_HINTS. py_in k hay) \<or> (\<exists>b \<in> set BREAD_HINTS. py_in b hay))"

datatype menu_node = MenuNode (node_label: "string option") (node_href: "string option")
  (node_children: "menu_node list")

text \<open>
  The parser. Its stack of nodes is kept with the top first; a node is put among the
  children of its parent when it leaves the stack, or at the end of the document. In the
  source it is there from its creation: the order of the children is the same, since
  only the node on top of the stack gets children.
\<close>

record parser =
  stack :: "menu_node list"
  nav_depth :: nat
  menu_ul_depth :: nat
  in_a :: bool
  a_text_buf :: "string list"
  a_href :: string

definition in_scope :: "parser \<Rightarrow> bool" where
  "in_scope p \<longleftrightarrow> 0 < nav_depth p \<or> 0 < menu_ul_depth p"

definition adopt :: "menu_node \<Rightarrow> menu_node \<Rightarrow> menu_node" where
  "adopt parent child = MenuNode (node_label parent) (node_href parent) (node_children parent @ [child])"

definition handle_starttag :: "string \<Rightarrow> (string \<times> string option) list \<Rightarrow> parser \<Rightarrow> parser" where
  "handle_starttag tag attrs p =
     (if tag = ''nav'' then p\<lparr>nav_depth := nav_depth p + 1\<rparr>
      else if tag \<in> {''ul'', ''ol''}
      then (if is_menu_ul attrs then p\<lparr>menu_ul_depth := menu_ul_depth p + 1\<rparr> else p)
      else if tag = ''li''
      then (if in_scope p then p\<lparr>stack := MenuNode None None [] # stack p\<rparr> else p)
      else if tag = ''a''
      then (if in_scope p then p\<lparr>in_a := True, a_text_buf := [], a_href := attr_of attrs ''href''\<rparr>
            else p)
      else p)"

definition handle_data :: "string \<Rightarrow> parser \<Rightarrow> parser" where
  "handle_data data p =
     (if in_a p \<and> in_scope p then p\<lparr>a_text_buf := a_text_buf p @ [data]\<rparr> else p)"

text \<open>The end of an anchor gives the node on top its label and its link when it has none.\<close>

definition set_label :: "string \<Rightarrow> string \<Rightarrow> menu_node \<Rightarrow> menu_node" where
  "set_label lbl link cur =
     MenuNode (if node_label cur = None \<or> node_label cur = Some [] then Some lbl else node_label cur)
       (if (node_href cur = None \<or> node_href cur = Some []) \<and> link \<noteq> [] then Some link else node_href cur)
       (node_children cur)"

definition handle_endtag :: "runtime \<Rightarrow> string \<Rightarrow> parser \<Rightarrow> parser" where
  "handle_endtag rt tag p =
     (if tag = ''a''
      then
        (let lbl = clean_text rt (concat (a_text_buf p));
             p' = (if in_a p \<and> in_scope p \<and> lbl \<noteq> []
                   then (case stack p of
                           [] \<Rightarrow> p
                         | cur # rest \<Rightarrow> p\<lparr>stack := set_label lbl (a_href p) cur # rest\<rparr>)
                   else p)
         in p'\<lparr>in_a := False, a_text_buf := [], a_href := []\<rparr>)
      else if tag = ''li''
      then (case stack p of
              cur # parent # rest \<Rightarrow>
                if in_scope p then p\<lparr>stack := adopt parent cur # rest\<rparr> else p
            | _ \<Rightarrow> p)
      else if tag \<in> {''ul'', ''ol''}
      then (if 0 < menu_ul_depth p then p\<lparr>menu_ul_depth := menu_ul_depth p - 1\<rparr> else p)
      else if tag = ''nav''
      then (if 0 < nav_depth p then p\<lparr>nav_depth := nav_depth p - 1\<rparr> else p)
      else p)"

fun handle :: "runtime \<Rightarrow> event \<Rightarrow> parser \<Rightarrow> parser" where
  "handle rt (StartTag tag attrs) p = handle_starttag tag attrs p"
| "handle rt (EndTag tag) p = handle_endtag rt tag p"
| "handle rt (Data data) p = handle_data data p"

definition new_parser :: parser where
  "new_parser = \<lparr>stack = [MenuNode None None []], nav_depth = 0, menu_ul_depth = 0,
     in_a = False, a_text_buf = [], a_href = []\<rparr>"

text \<open>The root at the end: every node still on the stack is among the children of the next.\<close>

fun close_all :: "menu_node list \<Rightarrow> menu_node" where
  "close_all [] = MenuNode None None []"
| "close_all [node] = node"
| "close_all (cur # parent # rest) = close_all (adopt parent cur # rest)"

definition parse_tree :: "runtime \<Rightarrow> string \<Rightarrow> menu_node" where
  "parse_tree rt html = close_all (stack (foldl (\<lambda>p e. handle rt e p) new_parser (feed rt html)))"

text \<open>
  \<^verbatim>\<open>walk\<close>: an entry is the label of the node, its path label and its resolved link. The
  results are the path labels with the links; the leaf map takes the label of the node
  and the link to the path label, the last entry for a key being the one that stays.
\<close>

definition path_label :: "string list \<Rightarrow> string" where
  "path_label new_path = join '' > '' (map (\<lambda>x. ''['' @ x @ '']'') new_path)"

definition opt_text :: "string option \<Rightarrow> string" where
  "opt_text t = (case t of None \<Rightarrow> [] | Some s \<Rightarrow> s)"

fun walk :: "(string \<Rightarrow> bool) \<Rightarrow> string \<Rightarrow> string \<Rightarrow> string list \<Rightarrow> menu_node
      \<Rightarrow> error + (string \<times> string \<times> string) list"
  and walks :: "(string \<Rightarrow> bool) \<Rightarrow> string \<Rightarrow> string \<Rightarrow> string list \<Rightarrow> menu_node list
      \<Rightarrow> error + (string \<times> string \<times> string) list" where
  "walk ipok current_url html path_labels (MenuNode lbl link chs) =
     (let my_label = py_strip (opt_text lbl);
          my_href = py_strip (opt_text link);
          new_path = path_labels @ (if my_label \<noteq> [] then [my_label] else [])
      in case (if my_label \<noteq> [] \<and> my_href \<noteq> []
               then (case resolve_candidate_url ipok my_href current_url html of
                       Inl e \<Rightarrow> Inl e
                     | Inr absurl \<Rightarrow>
                         Inr (if absurl \<noteq> [] then [(my_label, path_label new_path, absurl)]
                              else []))
               else Inr []) of
           Inl e \<Rightarrow> Inl e
         | Inr own \<Rightarrow>
             (case walks ipok current_url html new_path chs of
                Inl e \<Rightarrow> Inl e
              | Inr below \<Rightarrow> Inr (own @ below)))"
| "walks ipok current_url html path_labels [] = Inr []"
| "walks ipok current_url html path_labels (ch # chs) =
     (case walk ipok current_url html path_labels ch of
        Inl e \<Rightarrow> Inl e
      | Inr first \<Rightarrow>
          (case walks ipok current_url html path_labels chs of
             Inl e \<Rightarrow> Inl e
           | Inr others \<Rightarrow> Inr (first @ others)))"

definition extract_menu_tree_candidates :: "runtime \<Rightarrow> (string \<Rightarrow> bool) \<Rightarrow> string \<Rightarrow> string
    \<Rightarrow> error + (string \<times> string \<times> string) list" where
  "extract_menu_tree_candidates rt ipok html current_url =
     walks ipok current_url html [] (node_children (parse_tree rt html))"

subsection \<open>All candidates of a document\<close>

text \<open>
  \<^verbatim>\<open>extract_menu_candidates_from_html\<close> itself, which the scan of the archive takes as one
  of its parts.
\<close>

definition leaf_map :: "(string \<times> string \<times> string) list \<Rightarrow> candidate \<rightharpoonup> string" where
  "leaf_map entries = map_of (rev (map (\<lambda>(l, p, u). ((l, u), p)) entries))"

definition apply_pathlabel :: "(candidate \<rightharpoonup> string) \<Rightarrow> candidate list \<Rightarrow> candidate list" where
  "apply_pathlabel lm items =
     map (\<lambda>(l, u). case lm (l, u) of Some p \<Rightarrow> (p, u) | None \<Rightarrow> (l, u)) items"

definition extract_menu_candidates_from_html_fn :: "runtime \<Rightarrow> (string \<Rightarrow> bool) \<Rightarrow> string \<Rightarrow> string
    \<Rightarrow> error + candidate list" where
  "extract_menu_candidates_from_html_fn rt ipok html current_url =
     (case extract_menu_tree_candidates rt ipok html current_url of
        Inl e \<Rightarrow> Inl e
      | Inr entries \<Rightarrow>
          (case extract_anchor_candidates rt ipok html current_url of
             Inl e \<Rightarrow> Inl e
           | Inr anchors \<Rightarrow>
               (case extract_non_a_candidates rt ipok html current_url of
                  Inl e \<Rightarrow> Inl e
                | Inr non_a \<Rightarrow>
                    Inr (dedup (map (\<lambda>(l, p, u). (p, u)) entries
                           @ apply_pathlabel (leaf_map entries) anchors
                           @ apply_pathlabel (leaf_map entries) non_a)))))"

section \<open>Running the matcher\<close>

text \<open>
  The equations of the matcher rewrite a closed term to its value, but every conditional
  whose branch holds the rest of the text makes the simplifier walk that text again. The
  equations below say the same with the decision as an argument of an auxiliary
  function, and with the continuations as constants instead of abstractions.
\<close>

definition then_match :: "rx \<Rightarrow> (mstate \<Rightarrow> 'r option) \<Rightarrow> mstate \<Rightarrow> 'r option" where
  "then_match r k st = rx_match r st k"

definition capture :: "nat \<Rightarrow> string \<Rightarrow> (mstate \<Rightarrow> 'r option) \<Rightarrow> mstate \<Rightarrow> 'r option" where
  "capture i rest k st =
     (case st of (prev', rest', g') \<Rightarrow>
        k (prev', rest', g'(i \<mapsto> take (length rest - length rest') rest)))"

definition accept :: "nat \<Rightarrow> string \<Rightarrow> mstate \<Rightarrow> rmatch option" where
  "accept pos rest st =
     (case st of (prev', rest', g) \<Rightarrow>
        Some \<lparr>m_start = pos, m_end = pos + (length rest - length rest'), m_groups = g\<rparr>)"

fun guard :: "bool \<Rightarrow> (mstate \<Rightarrow> 'r option) \<Rightarrow> mstate \<Rightarrow> 'r option" where
  "guard True k st = k st"
| "guard False k st = None"

fun or_else :: "'r option \<Rightarrow> bool \<Rightarrow> (mstate \<Rightarrow> 'r option) \<Rightarrow> mstate \<Rightarrow> 'r option" where
  "or_else (Some r) b k st = Some r"
| "or_else None b k st = guard b k st"

fun or_match :: "'r option \<Rightarrow> rx \<Rightarrow> mstate \<Rightarrow> (mstate \<Rightarrow> 'r option) \<Rightarrow> 'r option" where
  "or_match (Some r) b st k = Some r"
| "or_match None b st k = rx_match b st k"

fun greedy_step :: "bool \<Rightarrow> (char \<Rightarrow> bool) \<Rightarrow> nat \<Rightarrow> char option \<Rightarrow> char \<Rightarrow> string \<Rightarrow> caps
    \<Rightarrow> (mstate \<Rightarrow> 'r option) \<Rightarrow> 'r option" where
  "greedy_step True P n prev c cs g k =
     or_else (rep_greedy P (n - 1) (Some c, cs, g) k) (n = 0) k (prev, c # cs, g)"
| "greedy_step False P n prev c cs g k = guard (n = 0) k (prev, c # cs, g)"

fun lazy_more :: "bool \<Rightarrow> (char \<Rightarrow> bool) \<Rightarrow> nat \<Rightarrow> char \<Rightarrow> string \<Rightarrow> caps
    \<Rightarrow> (mstate \<Rightarrow> 'r option) \<Rightarrow> 'r option" where
  "lazy_more True P n c cs g k = rep_lazy P (n - 1) (Some c, cs, g) k"
| "lazy_more False P n c cs g k = None"

fun lazy_try :: "'r option \<Rightarrow> (char \<Rightarrow> bool) \<Rightarrow> char \<Rightarrow> string \<Rightarrow> caps
    \<Rightarrow> (mstate \<Rightarrow> 'r option) \<Rightarrow> 'r option" where
  "lazy_try (Some r) P c cs g k = Some r"
| "lazy_try None P c cs g k = lazy_more (P c) P 0 c cs g k"

fun lazy_step :: "bool \<Rightarrow> (char \<Rightarrow> bool) \<Rightarrow> nat \<Rightarrow> char option \<Rightarrow> char \<Rightarrow> string \<Rightarrow> caps
    \<Rightarrow> (mstate \<Rightarrow> 'r option) \<Rightarrow> 'r option" where
  "lazy_step True P n prev c cs g k = lazy_try (k (prev, c # cs, g)) P c cs g k"
| "lazy_step False P n prev c cs g k = lazy_more (P c) P n c cs g k"

fun word_at :: "string \<Rightarrow> bool" where
  "word_at [] = False"
| "word_at (c # cs) = is_word c"

fun word_before :: "char option \<Rightarrow> bool" where
  "word_before None = False"
| "word_before (Some c) = is_word c"

fun search_step :: "rmatch option \<Rightarrow> rx \<Rightarrow> char \<Rightarrow> string \<Rightarrow> nat \<Rightarrow> rmatch option" where
  "search_step (Some m) r c cs pos = Some m"
| "search_step None r c cs pos = search_from r (Some c) cs (pos + 1)"

fun iter_step :: "rmatch option \<Rightarrow> rx \<Rightarrow> char \<Rightarrow> string \<Rightarrow> nat \<Rightarrow> rmatch list" where
  "iter_step (Some m) r c cs pos = m # finditer_from r (Some c) cs (pos + 1) (m_end m - pos - 1)"
| "iter_step None r c cs pos = finditer_from r (Some c) cs (pos + 1) 0"

fun iter_skip :: "bool \<Rightarrow> rx \<Rightarrow> char option \<Rightarrow> char \<Rightarrow> string \<Rightarrow> nat \<Rightarrow> nat \<Rightarrow> rmatch list" where
  "iter_skip True r prev c cs pos skip = iter_step (match_at r prev (c # cs) pos) r c cs pos"
| "iter_skip False r prev c cs pos skip = finditer_from r (Some c) cs (pos + 1) (skip - 1)"

lemma then_match_eq: "then_match r k = (\<lambda>st. rx_match r st k)"
  by (simp add: fun_eq_iff then_match_def)

lemma capture_eq:
  "capture i rest k
     = (\<lambda>(prev', rest', g'). k (prev', rest', g'(i \<mapsto> take (length rest - length rest') rest)))"
  by (simp add: fun_eq_iff capture_def)

lemma accept_eq:
  "accept pos rest
     = (\<lambda>(prev', rest', g).
          Some \<lparr>m_start = pos, m_end = pos + (length rest - length rest'), m_groups = g\<rparr>)"
  by (simp add: fun_eq_iff accept_def)

named_theorems run \<open>equations that run the matcher on a text\<close>

lemma run_then_match [run]: "then_match r k st = rx_match r st k"
  by (simp add: then_match_def)

lemma run_capture [run]:
  "capture i rest k (prev', rest', g') =
     k (prev', rest', g'(i \<mapsto> take (length rest - length rest') rest))"
  by (simp add: capture_def)

lemma run_accept [run]:
  "accept pos rest (prev', rest', g) =
     Some \<lparr>m_start = pos, m_end = pos + (length rest - length rest'), m_groups = g\<rparr>"
  by (simp add: accept_def)

lemma run_Cls [run]:
  "rx_match (Cls P) (prev, [], g) k = None"
  "rx_match (Cls P) (prev, c # cs, g) k = guard (P c) k (Some c, cs, g)"
  by (cases "P c"; simp)+

lemma run_Eps [run]: "rx_match Eps st k = k st"
  by simp

lemma run_Seq [run]: "rx_match (Seq a b) st k = rx_match a st (then_match b k)"
  by (simp add: then_match_eq)

lemma run_Alt [run]: "rx_match (Alt a b) st k = or_match (rx_match a st k) b st k"
  by (cases "rx_match a st k") simp_all

lemma run_Opt [run]: "rx_match (Opt a) st k = or_else (rx_match a st k) True k st"
  by (cases "rx_match a st k") simp_all

lemma run_Rep [run]:
  "rx_match (Rep P n True) st k = rep_greedy P n st k"
  "rx_match (Rep P n False) st k = rep_lazy P n st k"
  by simp_all

lemma run_rep_greedy [run]:
  "rep_greedy P n (prev, [], g) k = guard (n = 0) k (prev, [], g)"
  "rep_greedy P n (prev, c # cs, g) k = greedy_step (P c) P n prev c cs g k"
  by (cases "P c"; cases "n = 0"; cases "rep_greedy P (n - 1) (Some c, cs, g) k"; simp)+

lemma run_rep_lazy [run]:
  "rep_lazy P n (prev, [], g) k = guard (n = 0) k (prev, [], g)"
  "rep_lazy P n (prev, c # cs, g) k = lazy_step (n = 0) P n prev c cs g k"
  by (cases "P c"; cases "n = 0"; cases "k (prev, c # cs, g)"; simp)+

lemma run_Grp [run]: "rx_match (Grp i a) (prev, rest, g) k = rx_match a (prev, rest, g) (capture i rest k)"
  by (simp add: capture_eq)

lemma run_WordB [run]:
  "rx_match WordB (prev, rest, g) k = guard (word_before prev \<noteq> word_at rest) k (prev, rest, g)"
  by (cases prev; cases rest; cases "word_before prev \<noteq> word_at rest"; simp)

lemma run_Eos [run]:
  "rx_match Eos (prev, rest, g) k = guard (rest = [] \<or> rest = [CHR 0x0A]) k (prev, rest, g)"
  by (cases "rest = [] \<or> rest = [CHR 0x0A]") simp_all

lemma run_rx_seq [run]:
  "rx_match (rx_seq []) st k = k st"
  "rx_match (rx_seq (r # rs)) st k = rx_match r st (then_match (rx_seq rs) k)"
  by (simp_all add: rx_seq_def then_match_eq)

lemma run_rx_ci [run]:
  "rx_match (rx_ci []) st k = k st"
  "rx_match (rx_ci (p # ps)) (prev, [], g) k = None"
  "rx_match (rx_ci (p # ps)) (prev, c # cs, g) k =
     guard (py_lower_char c = py_lower_char p) (then_match (rx_ci ps) k) (Some c, cs, g)"
  by (cases "py_lower_char c = py_lower_char p"; simp add: rx_ci_def rx_seq_def ci_def then_match_eq)+

lemma run_ci [run]:
  "rx_match (ci p) (prev, [], g) k = None"
  "rx_match (ci p) (prev, c # cs, g) k = guard (py_lower_char c = py_lower_char p) k (Some c, cs, g)"
  by (cases "py_lower_char c = py_lower_char p"; simp add: ci_def)+

lemma run_rx_lit [run]:
  "rx_match (rx_lit []) st k = k st"
  "rx_match (rx_lit (p # ps)) (prev, [], g) k = None"
  "rx_match (rx_lit (p # ps)) (prev, c # cs, g) k =
     guard (c = p) (then_match (rx_lit ps) k) (Some c, cs, g)"
  by (cases "c = p"; simp add: rx_lit_def rx_seq_def then_match_eq)+

lemma run_rx_alt [run]:
  "rx_match (rx_alt [r]) st k = rx_match r st k"
  "rx_match (rx_alt (r # r' # rs)) st k = or_match (rx_match r st k) (rx_alt (r' # rs)) st k"
  by (cases "rx_match r st k"; simp add: rx_alt_def)+

lemma run_match_at [run]:
  "match_at r prev rest pos = rx_match r (prev, rest, Map.empty) (accept pos rest)"
  by (simp add: match_at_def accept_eq)

lemma run_search_from [run]:
  "search_from r prev [] pos = match_at r prev [] pos"
  "search_from r prev (c # cs) pos = search_step (match_at r prev (c # cs) pos) r c cs pos"
  by (cases "match_at r prev (c # cs) pos"; simp)+

lemma run_finditer_from [run]:
  "finditer_from r prev [] pos skip =
     (if skip = 0 then (case match_at r prev [] pos of None \<Rightarrow> [] | Some m \<Rightarrow> [m]) else [])"
  "finditer_from r prev (c # cs) pos skip = iter_skip (skip = 0) r prev c cs pos skip"
  by (cases "skip = 0"; cases "match_at r prev (c # cs) pos"; simp)+

text \<open>Lower case by the bits of a character, and the word characters by their codes.\<close>

definition lower_code :: "nat \<Rightarrow> nat" where
  "lower_code n =
     (if (65 \<le> n \<and> n \<le> 90) \<or> (192 \<le> n \<and> n \<le> 222 \<and> n \<noteq> 215) then n + 32 else n)"

lemma lower_code_less: "n < 256 \<Longrightarrow> lower_code n < 256"
  by (auto simp: lower_code_def)

lemma py_lower_char_code: "py_lower_char c = char_of (lower_code (of_char c))"
  by (simp add: py_lower_char_def lower_code_def Let_def)

lemma of_char_less: "(of_char c :: nat) < 256"
  by (metis of_char_mod_256 mod_less_divisor zero_less_numeral)

lemma run_lower_eq [run]:
  "py_lower_char c = py_lower_char p \<longleftrightarrow> lower_code (of_char c) = lower_code (of_char p)"
  unfolding py_lower_char_code
  by (metis of_char_less lower_code_less of_char_of mod_less)

declare rx_match.simps [simp del] rep_greedy.simps [simp del] rep_lazy.simps [simp del]
  search_from.simps [simp del] finditer_from.simps [simp del]

lemmas chars = quote_def py_isspace_def url_char_def is_word_def any_char_def name_start_def
  name_char_def tag_char_def ascii_alpha_def lower_code_def

lemmas pats = P_anchor_def P_attr_def P_base_def TAG_STRIP_def WS_def sp0_def ONCLICK_FUNC_CALL_def
  SCRIPT_BLOCKS_def fn_tail_def fn_body_def pat1_def pat2_def pat3_def quoted_url_def JS_URL_def
  P_call_def URLVAL_def in_quotes_def onclick_head_def onclick_tail_def ONCLICK_PATS_def
  P_element_def P_data_def P_form_def P_formaction_def P_button_def P_select_def
  P_select_block_def P_option_def

lemmas lib = re_finditer_def re_search_def re_findall1_def re_sub_def match_group_def window_def
  clean_text_def unescape_def attr_get_def anchor_label_def py_strip_def

section \<open>A link that is not excluded\<close>

text \<open>
  A page with one anchor whose link is \<^verbatim>\<open>JavaScript:void(0)\<close>, and the events that
  \<^verbatim>\<open>HTMLParser\<close> delivers for it: the start of the anchor, its text and its end.
\<close>

definition q :: string where "q = [CHR 0x22]"

definition doc_js :: string where
  "doc_js = ''<a href='' @ q @ ''JavaScript:void(0)'' @ q @ ''>Go</a>''"

definition go_rt :: runtime where
  "go_rt = \<lparr>feed = (\<lambda>html. [StartTag ''a'' [(''href'', Some ''JavaScript:void(0)'')], Data ''Go'',
                                  EndTag ''a'']),
             unescape_entities = (\<lambda>s. s), set_order = remdups\<rparr>"

lemma js_base: "re_search P_base doc_js = None"
  by (simp add: run chars pats lib doc_js_def q_def)

lemma js_join: "urljoin accept_any ''https://ex.com/'' ''JavaScript:void(0)'' = Inr ''JavaScript:void(0)''"
  by code_simp

lemma js_resolve:
  "resolve_candidate_url accept_any ''JavaScript:void(0)'' ''https://ex.com/'' doc_js
     = Inr ''JavaScript:void(0)''"
  unfolding resolve_candidate_url_def js_base
  by (simp add: js_join)

lemma js_anchors:
  "extract_anchor_candidates go_rt accept_any doc_js ''https://ex.com/''
     = Inr [(''Go'', ''JavaScript:void(0)'')]"
proof -
  have m: "re_finditer P_anchor doc_js
      = [\<lparr>m_start = 0, m_end = 35,
          m_groups = [1 \<mapsto> '' href='' @ q @ ''JavaScript:void(0)'' @ q, 2 \<mapsto> ''Go'']\<rparr>]"
    by (simp add: run chars pats lib doc_js_def q_def)
  show ?thesis
    unfolding extract_anchor_candidates_def m
    by (simp add: emit_def js_resolve run chars pats lib go_rt_def q_def Let_def)
qed

lemma js_onclick:
  "map (onclick_candidates go_rt accept_any doc_js ''https://ex.com/'') ONCLICK_PATS
     = [Inr [], Inr [], Inr []]"
  by (simp add: onclick_candidates_def run chars pats lib doc_js_def q_def)

lemma js_data: "data_candidates go_rt accept_any doc_js ''https://ex.com/'' = Inr []"
  by (simp add: data_candidates_def run chars pats lib doc_js_def q_def)

lemma js_form: "form_candidates go_rt accept_any doc_js ''https://ex.com/'' = Inr []"
  by (simp add: form_candidates_def run chars pats lib doc_js_def q_def)

lemma js_formaction: "formaction_candidates go_rt accept_any doc_js ''https://ex.com/'' = Inr []"
  by (simp add: formaction_candidates_def run chars pats lib doc_js_def q_def)

lemma js_select: "select_candidates go_rt accept_any doc_js ''https://ex.com/'' = Inr []"
  by (simp add: select_candidates_def run chars pats lib doc_js_def q_def)

lemma js_calls: "re_findall1 ONCLICK_FUNC_CALL doc_js = []"
  by (simp add: run chars pats lib doc_js_def q_def)

lemma js_functions:
  "extract_onclick_function_candidates go_rt accept_any doc_js ''https://ex.com/'' = Inr []"
  unfolding extract_onclick_function_candidates_def js_calls
  by (simp add: go_rt_def)

lemma js_non_a: "extract_non_a_candidates go_rt accept_any doc_js ''https://ex.com/'' = Inr []"
  by (simp add: extract_non_a_candidates_def non_a_strategies_def js_onclick js_data js_form
      js_formaction js_select js_functions)

lemma js_tree: "extract_menu_tree_candidates go_rt accept_any doc_js ''https://ex.com/'' = Inr []"
  by (simp add: extract_menu_tree_candidates_def parse_tree_def go_rt_def new_parser_def
      handle_starttag_def handle_endtag_def handle_data_def in_scope_def)

lemma js_all:
  "extract_menu_candidates_from_html_fn go_rt accept_any doc_js ''https://ex.com/''
     = Inr [(''Go'', ''JavaScript:void(0)'')]"
  by (simp add: extract_menu_candidates_from_html_fn_def js_tree js_anchors js_non_a
      apply_pathlabel_def leaf_map_def dedup_def)

lemma js_parsed:
  "urlparse accept_any ''JavaScript:void(0)''
     = Inr \<lparr>scheme = ''javascript'', netloc = [], path = ''void(0)'', params = [], query = [],
            fragment = []\<rparr>"
  by code_simp

text \<open>
  Claim C4 fails on this page. For the current URL \<^verbatim>\<open>https://ex.com/\<close> the candidates of
  the page are the one pair of the label \<^verbatim>\<open>Go\<close> and the link \<^verbatim>\<open>JavaScript:void(0)\<close> as it
  stands: \<^verbatim>\<open>_resolve_candidate_url\<close> excludes a link only when it begins with the lower
  case text \<^verbatim>\<open>javascript:\<close>, and \<^verbatim>\<open>urljoin\<close> gives back a link whose scheme is not the
  scheme of the base. The URL of the candidate has the scheme \<^verbatim>\<open>javascript\<close> and no host.
\<close>

theorem javascript_link_is_a_candidate:
  "extract_menu_candidates_from_html_fn go_rt accept_any doc_js ''https://ex.com/''
     = Inr [(''Go'', ''JavaScript:void(0)'')]
   \<and> resolve_candidate_url accept_any ''JavaScript:void(0)'' ''https://ex.com/'' doc_js
       = Inr ''JavaScript:void(0)''
   \<and> urlparse accept_any ''JavaScript:void(0)''
       = Inr \<lparr>scheme = ''javascript'', netloc = [], path = ''void(0)'', params = [], query = [],
              fragment = []\<rparr>"
  by (simp add: js_all js_resolve js_parsed)

section \<open>The order of the candidates\<close>


lemma clean_text_order [simp]: "clean_text (rt\<lparr>set_order := ord\<rparr>) = clean_text rt"
  by (simp add: fun_eq_iff clean_text_def unescape_def)

lemma anchor_label_order [simp]: "anchor_label (rt\<lparr>set_order := ord\<rparr>) = anchor_label rt"
  by (simp add: fun_eq_iff anchor_label_def)

lemma window_label_order [simp]: "window_label (rt\<lparr>set_order := ord\<rparr>) = window_label rt"
  by (simp add: fun_eq_iff window_label_def cong: option.case_cong)

lemma handle_order [simp]: "handle (rt\<lparr>set_order := ord\<rparr>) e p = handle rt e p"
  by (cases e) (simp_all add: handle_endtag_def)

lemma tree_order [simp]:
  "extract_menu_tree_candidates (rt\<lparr>set_order := ord\<rparr>) = extract_menu_tree_candidates rt"
  by (simp add: fun_eq_iff extract_menu_tree_candidates_def parse_tree_def)

lemma anchors_order [simp]:
  "extract_anchor_candidates (rt\<lparr>set_order := ord\<rparr>) = extract_anchor_candidates rt"
  by (simp add: fun_eq_iff extract_anchor_candidates_def)

lemma strategies_order [simp]:
  "onclick_candidates (rt\<lparr>set_order := ord\<rparr>) = onclick_candidates rt"
  "data_candidates (rt\<lparr>set_order := ord\<rparr>) = data_candidates rt"
  "form_candidates (rt\<lparr>set_order := ord\<rparr>) = form_candidates rt"
  "formaction_candidates (rt\<lparr>set_order := ord\<rparr>) = formaction_candidates rt"
  "select_candidates (rt\<lparr>set_order := ord\<rparr>) = select_candidates rt"
  by (simp_all add: fun_eq_iff onclick_candidates_def data_candidates_def form_candidates_def
      formaction_candidates_def select_candidates_def cong: option.case_cong)

lemma calls_of_anchor_order [simp]:
  "calls_of_anchor (rt\<lparr>set_order := ord\<rparr>) = calls_of_anchor rt"
  by (simp add: fun_eq_iff calls_of_anchor_def cong: if_cong)


















































end
